theory Spec2Isabelle
  imports Main
begin

section \<open>Proxy authentication service (vs/platform/native/electron-main/auth.ts)\<close>

text \<open>
  The class \<open>ProxyAuthService\<close> is a set of \<open>async\<close> methods over four private
  fields. An \<open>async\<close> method runs synchronously up to its first \<open>await\<close>, and is
  resumed later, once the awaited promise has settled. The embedding keeps this:
  every method is a state transformer for its synchronous segments, a suspended
  method is a \<open>frame\<close> stored under a task number, promises are cells of a promise
  store, and an event of the machine is either a call of \<open>onLogin\<close>, the resumption
  of one suspended frame, or an answer of an external service (decryption,
  encryption, the dialog window). Any ready frame may be resumed next, which
  includes the first-in-first-out order of the JavaScript job queue.
\<close>

subsection \<open>Data\<close>

text \<open>
  Modelled from the spec: the declarations of \<open>AuthInfo\<close> and \<open>Credentials\<close>
  (vs/platform/request/common/request) are not among the sources; the fields are
  those the spec lists for a challenge and for credentials.
\<close>

record AuthInfo =
  isProxy :: bool
  scheme :: string
  host :: string
  port :: int
  attempt :: int

record Credentials =
  username :: string
  password :: string

text \<open>What \<open>JSON.parse\<close> can return, as far as the property reads and the
  \<open>typeof\<close> tests of \<open>doResolveProxyCredentials\<close> tell values apart. An object is
  the list of its own properties; \<open>JOther\<close> stands for numbers, booleans and arrays.\<close>

datatype json = JNull | JStr string | JObj "(string \<times> json) list" | JOther

datatype error = TypeError | SyntaxError | DecryptError | EncryptError | StorageError

text \<open>The state of a \<open>Promise<Credentials | undefined>\<close>.\<close>

datatype outcome = Pending | Fulfilled "Credentials option" | Rejected error

text \<open>A promise object is named by the place that created it and a number that is
  new at its creation: the promise of a call of \<open>resolveProxyCredentials\<close>, of
  \<open>doResolveProxyCredentials\<close>, of the dialog closure of line 170, of
  \<open>showProxyCredentialsDialog\<close>, and the \<open>new Promise\<close> of line 211. The frames
  below hold the number; the place is fixed by the variable that holds it.\<close>

datatype promise = PResolve nat | PDoResolve nat | PDialog nat | PShow nat | PReply nat

text \<open>A suspended \<open>async\<close> function: the \<open>await\<close> it stands at and the locals it
  still needs.\<close>

datatype frame =
    OnLoginNew nat string nat bool
      \<comment> \<open>\<open>onLogin\<close>, line 92: call number, authInfoHash, awaited promise, has callback\<close>
  | OnLoginJoin nat nat bool
      \<comment> \<open>\<open>onLogin\<close>, line 99: call number, awaited promise, has callback\<close>
  | Resolve nat nat
      \<comment> \<open>\<open>resolveProxyCredentials\<close>, line 117: awaited promise, own promise\<close>
  | DoResolveDecrypt AuthInfo string nat
      \<comment> \<open>\<open>doResolveProxyCredentials\<close>, line 151, waiting for \<open>decrypt\<close>: own promise last\<close>
  | DoResolveReturn nat nat
      \<comment> \<open>\<open>doResolveProxyCredentials\<close>, line 178: its promise (second) follows the
          returned dialog promise (first)\<close>
  | DialogWait "nat option" AuthInfo string "json option" "json option" nat
      \<comment> \<open>the dialog closure, line 171: previousDialog, arguments of the dialog, own promise\<close>
  | DialogShow nat nat
      \<comment> \<open>the dialog closure, line 172: awaited promise, own promise\<close>
  | ShowReply nat string nat
      \<comment> \<open>\<open>showProxyCredentialsDialog\<close>, line 211: the reply promise, authInfoHash, own promise\<close>
  | HandlerEncrypt string Credentials nat
      \<comment> \<open>\<open>proxyAuthResponseHandler\<close>, line 224, waiting for \<open>encrypt\<close>: authInfoHash,
          credentials, the reply promise it will resolve\<close>

text \<open>Calls that leave the class, in the order they are made.\<close>

datatype effect =
    Returned nat outcome
      \<comment> \<open>the promise \<open>onLogin\<close> returned for this call number has settled\<close>
  | Callback nat "string option" "string option"
  | StorageGet string
  | StorageStore string string
  | StorageRemove string
  | Decrypt string
  | Encrypt string
  | OpenDialog nat AuthInfo string "json option" "json option"
      \<comment> \<open>\<open>sendWhenReady\<close>: reply channel, payload (authInfo, username, password); the
          authInfoHash of the request is kept with it\<close>
  | LogError error

record state =
  pendingProxyResolves :: "string \<rightharpoonup> nat"
  currentDialog :: "nat option"
  cancelledAuthInfoHashes :: "string set"
  sessionCredentials :: "string \<rightharpoonup> Credentials option"
  storage :: "string \<rightharpoonup> string"
    \<comment> \<open>the application storage, scope APPLICATION\<close>
  storageFails :: bool
    \<comment> \<open>whether a call of the storage service throws\<close>
  hasWindow :: bool
    \<comment> \<open>\<open>getFocusedWindow() || getLastActiveWindow()\<close> is defined\<close>
  handlers :: "nat \<rightharpoonup> string \<times> nat"
    \<comment> \<open>the registered \<open>ipc-message\<close> listeners, by reply channel: authInfoHash and
        the promise the listener resolves\<close>
  nextChannel :: nat
  promises :: "promise \<Rightarrow> outcome"
  nextPromise :: nat
  tasks :: "nat \<rightharpoonup> frame"
  nextTask :: nat
  nextCall :: nat
  trace :: "effect list"

text \<open>The functions the class imports and the sources do not hold, as parameters:
  \<open>hash\<close> (vs/base/common/hash) followed by \<open>String\<close>, on the three hashed fields,
  and the two JSON functions.\<close>

record env =
  hashString :: "string \<times> string \<times> int \<Rightarrow> string"
  jsonParse :: "string \<Rightarrow> json option"
  jsonStringify :: "Credentials \<Rightarrow> string"

datatype event =
    Login AuthInfo bool
      \<comment> \<open>\<open>onLogin\<close> is called: from the \<open>login\<close> event (with a callback) or from
          \<open>lookupAuthorization\<close> (without)\<close>
  | Run nat
      \<comment> \<open>the job queue resumes the frame of this task\<close>
  | DecryptDone nat "string option"
      \<comment> \<open>\<open>decrypt\<close> settles for this task: the plain text, or a rejection\<close>
  | EncryptDone nat "string option"
  | DialogReply nat "(Credentials \<times> bool) option"
      \<comment> \<open>an \<open>ipc-message\<close> on this channel: credentials and \<open>remember\<close>, or cancelled\<close>
  | SetWindow bool
  | SetStorageFails bool

subsection \<open>Promises, tasks, effects\<close>

definition PROXY_CREDENTIALS_SERVICE_KEY :: string where
  "PROXY_CREDENTIALS_SERVICE_KEY = ''proxy-credentials://''"

definition storageKey :: "string \<Rightarrow> string" where
  "storageKey h = PROXY_CREDENTIALS_SERVICE_KEY @ h"

definition authInfoHash :: "env \<Rightarrow> AuthInfo \<Rightarrow> string" where
  "authInfoHash E ai = hashString E (scheme ai, host ai, port ai)"

definition allocPromise :: "state \<Rightarrow> state" where
  "allocPromise s = s\<lparr>nextPromise := Suc (nextPromise s)\<rparr>"

text \<open>A promise settles once: resolving a settled promise does nothing.\<close>

definition settle :: "promise \<Rightarrow> outcome \<Rightarrow> state \<Rightarrow> state" where
  "settle p v s = (if promises s p = Pending then s\<lparr>promises := (promises s)(p := v)\<rparr> else s)"

definition suspend :: "frame \<Rightarrow> state \<Rightarrow> state" where
  "suspend f s = s\<lparr>tasks := (tasks s)(nextTask s \<mapsto> f), nextTask := Suc (nextTask s)\<rparr>"

definition finish :: "nat \<Rightarrow> state \<Rightarrow> state" where
  "finish t s = s\<lparr>tasks := (tasks s)(t := None)\<rparr>"

definition continue :: "nat \<Rightarrow> frame \<Rightarrow> state \<Rightarrow> state" where
  "continue t f s = s\<lparr>tasks := (tasks s)(t \<mapsto> f)\<rparr>"

definition emit :: "effect \<Rightarrow> state \<Rightarrow> state" where
  "emit e s = s\<lparr>trace := trace s @ [e]\<rparr>"

text \<open>\<open>applicationStorageMainService.store\<close> and \<open>remove\<close> inside the \<open>try\<close> of lines
  222 to 237: a throw is logged and nothing else happens.\<close>

definition storageStore :: "string \<Rightarrow> string \<Rightarrow> state \<Rightarrow> state" where
  "storageStore k v s =
     (if storageFails s then emit (LogError StorageError) s
      else emit (StorageStore k v) (s\<lparr>storage := (storage s)(k \<mapsto> v)\<rparr>))"

definition storageRemove :: "string \<Rightarrow> state \<Rightarrow> state" where
  "storageRemove k s =
     (if storageFails s then emit (LogError StorageError) s
      else emit (StorageRemove k) (s\<lparr>storage := (storage s)(k := None)\<rparr>))"

subsection \<open>showProxyCredentialsDialog and the reply handler\<close>

text \<open>\<open>sessionCredentials?.username ?? storedUsername\<close> of lines 204 and 205.\<close>

definition prefill :: "Credentials option option \<Rightarrow> (Credentials \<Rightarrow> string) \<Rightarrow> json option \<Rightarrow> json option" where
  "prefill sc field stored = (case sc of Some (Some c) \<Rightarrow> Some (JStr (field c)) | _ \<Rightarrow> stored)"

text \<open>Lines 181 to 211: the call up to its \<open>await\<close>. The result is the promise of the
  call and the state.\<close>

definition showProxyCredentialsDialog ::
  "AuthInfo \<Rightarrow> string \<Rightarrow> json option \<Rightarrow> json option \<Rightarrow> state \<Rightarrow> nat \<times> state" where
  "showProxyCredentialsDialog ai h storedUsername storedPassword s =
     (let r = nextPromise s; s1 = allocPromise s in
      if h \<in> cancelledAuthInfoHashes s1 then (r, settle (PShow r) (Fulfilled None) s1)
      else if \<not> hasWindow s1 then (r, settle (PShow r) (Fulfilled None) s1)
      else
        let sc = sessionCredentials s1 h;
            ch = nextChannel s1;
            q = nextPromise s1;
            s2 = (allocPromise s1)\<lparr>nextChannel := Suc ch\<rparr>;
            s3 = emit (OpenDialog ch ai h (prefill sc username storedUsername)
                         (prefill sc password storedPassword)) s2;
            s4 = s3\<lparr>handlers := (handlers s3)(ch \<mapsto> (h, q))\<rparr>
        in (r, suspend (ShowReply q h r) s4))"

text \<open>Lines 212 to 248: the listener, called with a message on channel \<open>ch\<close>. Only
  the listener whose \<open>replyChannel\<close> is \<open>ch\<close> acts, and it unregisters itself.\<close>

definition proxyAuthResponseHandler ::
  "env \<Rightarrow> nat \<Rightarrow> (Credentials \<times> bool) option \<Rightarrow> state \<Rightarrow> state" where
  "proxyAuthResponseHandler E ch reply s =
     (case handlers s ch of
        None \<Rightarrow> s
      | Some (h, q) \<Rightarrow>
          let s1 = s\<lparr>handlers := (handlers s)(ch := None)\<rparr> in
          (case reply of
             Some (credentials, remember) \<Rightarrow>
               if remember
               then suspend (HandlerEncrypt h credentials q)
                      (emit (Encrypt (jsonStringify E credentials)) s1)
               else settle (PReply q) (Fulfilled (Some credentials))
                      (storageRemove (storageKey h) s1)
           | None \<Rightarrow>
               settle (PReply q) (Fulfilled None)
                 (s1\<lparr>cancelledAuthInfoHashes := insert h (cancelledAuthInfoHashes s1)\<rparr>)))"

text \<open>Lines 224 to 239, after \<open>encrypt\<close> has settled.\<close>

definition resumeHandlerEncrypt ::
  "nat \<Rightarrow> string \<Rightarrow> Credentials \<Rightarrow> nat \<Rightarrow> string option \<Rightarrow> state \<Rightarrow> state" where
  "resumeHandlerEncrypt t h credentials q enc s =
     (let s1 = finish t s;
          s2 = (case enc of
                  None \<Rightarrow> emit (LogError EncryptError) s1
                | Some v \<Rightarrow> storageStore (storageKey h) v s1)
      in settle (PReply q) (Fulfilled (Some credentials)) s2)"

text \<open>Lines 253 to 258, after the reply promise has settled.\<close>

definition resumeShowReply :: "nat \<Rightarrow> nat \<Rightarrow> string \<Rightarrow> nat \<Rightarrow> state \<Rightarrow> state" where
  "resumeShowReply t q h r s =
     (case promises s (PReply q) of
        Pending \<Rightarrow> s
      | Rejected e \<Rightarrow> settle (PShow r) (Rejected e) (finish t s)
      | Fulfilled loginDialogCredentials \<Rightarrow>
          settle (PShow r) (Fulfilled loginDialogCredentials)
            ((finish t s)\<lparr>sessionCredentials := (sessionCredentials s)(h \<mapsto> loginDialogCredentials)\<rparr>))"

subsection \<open>The dialog closure (lines 169 to 178)\<close>

text \<open>After \<open>await previousDialog\<close>: \<open>await undefined\<close> goes on at once, a rejected
  promise throws out of the closure.\<close>

definition resumeDialogWait ::
  "nat \<Rightarrow> nat option \<Rightarrow> AuthInfo \<Rightarrow> string \<Rightarrow> json option \<Rightarrow> json option \<Rightarrow> nat \<Rightarrow> state \<Rightarrow> state" where
  "resumeDialogWait t previousDialog ai h storedUsername storedPassword cd s =
     (case (case previousDialog of None \<Rightarrow> Fulfilled None | Some pd \<Rightarrow> promises s (PDialog pd)) of
        Pending \<Rightarrow> s
      | Rejected e \<Rightarrow> settle (PDialog cd) (Rejected e) (finish t s)
      | Fulfilled _ \<Rightarrow>
          (case showProxyCredentialsDialog ai h storedUsername storedPassword s of
             (r, s1) \<Rightarrow> continue t (DialogShow r cd) s1))"

text \<open>After \<open>await this.showProxyCredentialsDialog(...)\<close>, lines 173 to 176.\<close>

definition resumeDialogShow :: "nat \<Rightarrow> nat \<Rightarrow> nat \<Rightarrow> state \<Rightarrow> state" where
  "resumeDialogShow t r cd s =
     (case promises s (PShow r) of
        Pending \<Rightarrow> s
      | Rejected e \<Rightarrow> settle (PDialog cd) (Rejected e) (finish t s)
      | Fulfilled credentials \<Rightarrow>
          let s1 = finish t s;
              s2 = (if currentDialog s1 = Some cd then s1\<lparr>currentDialog := None\<rparr> else s1)
          in settle (PDialog cd) (Fulfilled credentials) s2)"

subsection \<open>doResolveProxyCredentials\<close>

text \<open>The test of line 162 on the two stored values.\<close>

definition storedStrings :: "json option \<Rightarrow> json option \<Rightarrow> Credentials option" where
  "storedStrings storedUsername storedPassword =
     (case (storedUsername, storedPassword) of
        (Some (JStr u), Some (JStr p)) \<Rightarrow> Some \<lparr>username = u, password = p\<rparr>
      | _ \<Rightarrow> None)"

text \<open>Lines 159 to 178, with the promise \<open>d\<close> of the running call: reply with the
  stored credentials, or start the dialog closure, which runs up to its first
  \<open>await\<close>, make it \<open>currentDialog\<close> and return it.\<close>

definition doResolveAfterLookup ::
  "AuthInfo \<Rightarrow> string \<Rightarrow> json option \<Rightarrow> json option \<Rightarrow> nat \<Rightarrow> state \<Rightarrow> state" where
  "doResolveAfterLookup ai h storedUsername storedPassword d s =
     (case (if attempt ai = 1 then storedStrings storedUsername storedPassword else None) of
        Some c \<Rightarrow>
          settle (PDoResolve d) (Fulfilled (Some c))
            (s\<lparr>sessionCredentials := (sessionCredentials s)(h \<mapsto> Some c)\<rparr>)
      | None \<Rightarrow>
          let previousDialog = currentDialog s;
              cd = nextPromise s;
              s1 = suspend (DialogWait previousDialog ai h storedUsername storedPassword cd)
                     (allocPromise s);
              s2 = s1\<lparr>currentDialog := Some cd\<rparr>
          in suspend (DoResolveReturn cd d) s2)"

text \<open>Lines 151 to 157, from the settled \<open>decrypt\<close>: the stored pair, or the error
  that the \<open>catch\<close> receives. Reading a property of \<open>null\<close> throws; of a string, a
  number, a boolean or an array it gives \<open>undefined\<close>.\<close>

definition readDecrypted :: "env \<Rightarrow> string option \<Rightarrow> error + (json option \<times> json option)" where
  "readDecrypted E decrypted =
     (case decrypted of
        None \<Rightarrow> Inl DecryptError
      | Some plain \<Rightarrow>
          (case jsonParse E plain of
             None \<Rightarrow> Inl SyntaxError
           | Some JNull \<Rightarrow> Inl TypeError
           | Some (JObj kvs) \<Rightarrow> Inr (map_of kvs ''username'', map_of kvs ''password'')
           | Some _ \<Rightarrow> Inr (None, None)))"

definition resumeDoResolveDecrypt ::
  "env \<Rightarrow> nat \<Rightarrow> AuthInfo \<Rightarrow> string \<Rightarrow> nat \<Rightarrow> string option \<Rightarrow> state \<Rightarrow> state" where
  "resumeDoResolveDecrypt E t ai h d decrypted s =
     (case readDecrypted E decrypted of
        Inl error \<Rightarrow> doResolveAfterLookup ai h None None d (emit (LogError error) (finish t s))
      | Inr (storedUsername, storedPassword) \<Rightarrow>
          doResolveAfterLookup ai h storedUsername storedPassword d (finish t s))"

text \<open>Lines 132 to 157, the call up to its first \<open>await\<close> or its return. The session
  value is read under a non-null assertion and destructured: \<open>undefined\<close> throws a
  TypeError, which rejects the promise of the call.\<close>

definition doResolveProxyCredentials :: "env \<Rightarrow> AuthInfo \<Rightarrow> string \<Rightarrow> state \<Rightarrow> nat \<times> state" where
  "doResolveProxyCredentials E ai h s =
     (let d = nextPromise s; s1 = allocPromise s in
      case (if attempt ai = 1 then sessionCredentials s1 h else None) of
        Some None \<Rightarrow> (d, settle (PDoResolve d) (Rejected TypeError) s1)
      | Some (Some c) \<Rightarrow>
          (d, settle (PDoResolve d) (Fulfilled (Some \<lparr>username = username c, password = password c\<rparr>)) s1)
      | None \<Rightarrow>
          if storageFails s1
          then (d, doResolveAfterLookup ai h None None d (emit (LogError StorageError) s1))
          else
            let s2 = emit (StorageGet (storageKey h)) s1 in
            (case storage s2 (storageKey h) of
               None \<Rightarrow> (d, doResolveAfterLookup ai h None None d s2)
             | Some encryptedValue \<Rightarrow>
                 if encryptedValue = []
                 then (d, doResolveAfterLookup ai h None None d s2)
                 else (d, suspend (DoResolveDecrypt ai h d) (emit (Decrypt encryptedValue) s2))))"

text \<open>Line 178: the promise of the call follows the dialog promise it returned.\<close>

definition resumeDoResolveReturn :: "nat \<Rightarrow> nat \<Rightarrow> nat \<Rightarrow> state \<Rightarrow> state" where
  "resumeDoResolveReturn t cd d s =
     (case promises s (PDialog cd) of
        Pending \<Rightarrow> s
      | v \<Rightarrow> settle (PDoResolve d) v (finish t s))"

subsection \<open>resolveProxyCredentials and onLogin\<close>

definition resolveProxyCredentials :: "env \<Rightarrow> AuthInfo \<Rightarrow> string \<Rightarrow> state \<Rightarrow> nat \<times> state" where
  "resolveProxyCredentials E ai h s =
     (let p = nextPromise s in
      case doResolveProxyCredentials E ai h (allocPromise s) of
        (d, s1) \<Rightarrow> (p, suspend (Resolve d p) s1))"

definition resumeResolve :: "nat \<Rightarrow> nat \<Rightarrow> nat \<Rightarrow> state \<Rightarrow> state" where
  "resumeResolve t d p s =
     (case promises s (PDoResolve d) of
        Pending \<Rightarrow> s
      | Rejected e \<Rightarrow> settle (PResolve p) (Rejected e) (finish t s)
      | Fulfilled credentials \<Rightarrow>
          (case credentials of
             Some c \<Rightarrow> settle (PResolve p) (Fulfilled (Some c)) (finish t s)
           | None \<Rightarrow> settle (PResolve p) (Fulfilled None) (finish t s)))"

text \<open>Lines 109 and 110, or the rethrow when the awaited promise was rejected: then
  the callback is not called.\<close>

definition finishOnLogin :: "nat \<Rightarrow> bool \<Rightarrow> outcome \<Rightarrow> state \<Rightarrow> state" where
  "finishOnLogin call cb v s =
     (case v of
        Fulfilled credentials \<Rightarrow>
          emit (Returned call (Fulfilled credentials))
            (if cb
             then emit (Callback call (map_option username credentials)
                          (map_option password credentials)) s
             else s)
      | _ \<Rightarrow> emit (Returned call v) s)"

text \<open>Lines 92 to 95: the \<open>finally\<close> deletes the entry whatever the promise gave.\<close>

definition resumeOnLoginNew :: "nat \<Rightarrow> nat \<Rightarrow> string \<Rightarrow> nat \<Rightarrow> bool \<Rightarrow> state \<Rightarrow> state" where
  "resumeOnLoginNew t call h p cb s =
     (case promises s (PResolve p) of
        Pending \<Rightarrow> s
      | v \<Rightarrow>
          finishOnLogin call cb v
            ((finish t s)\<lparr>pendingProxyResolves := (pendingProxyResolves s)(h := None)\<rparr>))"

definition resumeOnLoginJoin :: "nat \<Rightarrow> nat \<Rightarrow> nat \<Rightarrow> bool \<Rightarrow> state \<Rightarrow> state" where
  "resumeOnLoginJoin t call p cb s =
     (case promises s (PResolve p) of
        Pending \<Rightarrow> s
      | v \<Rightarrow> finishOnLogin call cb v (finish t s))"

text \<open>Lines 69 to 100, the call up to its \<open>await\<close>.\<close>

definition onLogin :: "env \<Rightarrow> AuthInfo \<Rightarrow> bool \<Rightarrow> state \<Rightarrow> state" where
  "onLogin E ai cb s =
     (let call = nextCall s; s0 = s\<lparr>nextCall := Suc call\<rparr> in
      if \<not> isProxy ai then emit (Returned call (Fulfilled None)) s0
      else
        let h = authInfoHash E ai in
        (case pendingProxyResolves s0 h of
           None \<Rightarrow>
             (case resolveProxyCredentials E ai h s0 of
                (p, s1) \<Rightarrow>
                  suspend (OnLoginNew call h p cb)
                    (s1\<lparr>pendingProxyResolves := (pendingProxyResolves s1)(h \<mapsto> p)\<rparr>))
         | Some p \<Rightarrow> suspend (OnLoginJoin call p cb) s0))"

subsection \<open>The machine\<close>

fun resume :: "nat \<Rightarrow> frame \<Rightarrow> state \<Rightarrow> state" where
  "resume t (OnLoginNew call h p cb) s = resumeOnLoginNew t call h p cb s"
| "resume t (OnLoginJoin call p cb) s = resumeOnLoginJoin t call p cb s"
| "resume t (Resolve d p) s = resumeResolve t d p s"
| "resume t (DoResolveReturn cd d) s = resumeDoResolveReturn t cd d s"
| "resume t (DialogWait pd ai h su sp cd) s = resumeDialogWait t pd ai h su sp cd s"
| "resume t (DialogShow r cd) s = resumeDialogShow t r cd s"
| "resume t (ShowReply q h r) s = resumeShowReply t q h r s"
| "resume t (DoResolveDecrypt ai h d) s = s"
| "resume t (HandlerEncrypt h c q) s = s"

fun step :: "env \<Rightarrow> state \<Rightarrow> event \<Rightarrow> state" where
  "step E s (Login ai cb) = onLogin E ai cb s"
| "step E s (Run t) = (case tasks s t of None \<Rightarrow> s | Some f \<Rightarrow> resume t f s)"
| "step E s (DecryptDone t decrypted) =
     (case tasks s t of
        Some (DoResolveDecrypt ai h d) \<Rightarrow> resumeDoResolveDecrypt E t ai h d decrypted s
      | _ \<Rightarrow> s)"
| "step E s (EncryptDone t enc) =
     (case tasks s t of
        Some (HandlerEncrypt h c q) \<Rightarrow> resumeHandlerEncrypt t h c q enc s
      | _ \<Rightarrow> s)"
| "step E s (DialogReply ch reply) = proxyAuthResponseHandler E ch reply s"
| "step E s (SetWindow b) = s\<lparr>hasWindow := b\<rparr>"
| "step E s (SetStorageFails b) = s\<lparr>storageFails := b\<rparr>"

definition run :: "env \<Rightarrow> state \<Rightarrow> event list \<Rightarrow> state" where
  "run E s es = foldl (step E) s es"

text \<open>A new service: the fields as lines 42 to 47 initialise them, over the
  application storage a previous session left and a window or none.\<close>

definition initial :: "(string \<rightharpoonup> string) \<Rightarrow> bool \<Rightarrow> state" where
  "initial st w =
     \<lparr>pendingProxyResolves = Map.empty, currentDialog = None,
      cancelledAuthInfoHashes = {}, sessionCredentials = Map.empty,
      storage = st, storageFails = False, hasWindow = w,
      handlers = Map.empty, nextChannel = 0,
      promises = (\<lambda>_. Pending), nextPromise = 0,
      tasks = Map.empty, nextTask = 0, nextCall = 0, trace = []\<rparr>"

subsection \<open>Example inputs\<close>

text \<open>A hash, a parser and a printer for the examples, a proxy challenge, a challenge
  that is not for a proxy, and the states of one cancelled prompt.\<close>

definition exampleEnv :: env where
  "exampleEnv =
     \<lparr>hashString = (\<lambda>(sc, ho, po). sc @ '':'' @ ho),
      jsonParse = (\<lambda>x. if x = ''alice:secret''
                        then Some (JObj [(''username'', JStr ''alice''), (''password'', JStr ''secret'')])
                        else if x = ''null'' then Some JNull else None),
      jsonStringify = (\<lambda>c. username c @ '':'' @ password c)\<rparr>"

definition proxyChallenge :: "int \<Rightarrow> AuthInfo" where
  "proxyChallenge n =
     \<lparr>isProxy = True, scheme = ''basic'', host = ''proxy.example'', port = 8080, attempt = n\<rparr>"

definition directChallenge :: AuthInfo where
  "directChallenge =
     \<lparr>isProxy = False, scheme = ''basic'', host = ''www.example'', port = 443, attempt = 1\<rparr>"

definition dialogOpen :: state where
  "dialogOpen = run exampleEnv (initial Map.empty True) [Login (proxyChallenge 1) True, Run 0]"

definition replyCancelled :: state where
  "replyCancelled = step exampleEnv dialogOpen (DialogReply 0 None)"



definition userCancelled :: state where
  "userCancelled = run exampleEnv replyCancelled [Run 4, Run 0, Run 1, Run 2, Run 3]"


text \<open>An encrypted entry a previous session left for the example proxy, and the
  state of a first call that waits for its decryption.\<close>

definition storedBlob :: "string \<rightharpoonup> string" where
  "storedBlob = [''proxy-credentials://basic:proxy.example'' \<mapsto> ''blob'']"

definition decryptPending :: "int \<Rightarrow> state" where
  "decryptPending n = step exampleEnv (initial storedBlob True) (Login (proxyChallenge n) True)"

text \<open>Two runs of one call from the \<open>login\<close> event on a new service with an empty
  storage: the prompt is shown and the user cancels it; no window exists.\<close>

definition cancelRun :: "AuthInfo \<Rightarrow> event list" where
  "cancelRun ai = [Login ai True, Run 0, DialogReply 0 None, Run 4, Run 0, Run 1, Run 2, Run 3]"

definition noWindowRun :: "AuthInfo \<Rightarrow> event list" where
  "noWindowRun ai = [Login ai True, Run 0, Run 0, Run 1, Run 2, Run 3]"

subsection \<open>Failed reads of the storage\<close>

text \<open>The settled \<open>decrypt\<close> from which lines 151 to 153 throw: the decryption was
  rejected, \<open>JSON.parse\<close> throws, or it gives \<open>null\<close>.\<close>

definition readFails :: "env \<Rightarrow> string option \<Rightarrow> bool" where
  "readFails E x \<longleftrightarrow>
     (case x of None \<Rightarrow> True
      | Some plain \<Rightarrow> jsonParse E plain = None \<or> jsonParse E plain = Some JNull)"

subsection \<open>Invariants\<close>

text \<open>Allocation: the task numbers in use are below \<open>nextTask\<close>, and every promise
  number a frame, a listener, \<open>currentDialog\<close> or \<open>pendingProxyResolves\<close> holds is
  below \<open>nextPromise\<close>; a promise that is not yet created is pending.\<close>

fun frameIds :: "frame \<Rightarrow> nat list" where
  "frameIds (OnLoginNew c h p cb) = [p]"
| "frameIds (OnLoginJoin c p cb) = [p]"
| "frameIds (Resolve d p) = [d, p]"
| "frameIds (DoResolveDecrypt ai h d) = [d]"
| "frameIds (DoResolveReturn cd d) = [cd, d]"
| "frameIds (DialogWait pd ai h su sp cd) = cd # (case pd of None \<Rightarrow> [] | Some c \<Rightarrow> [c])"
| "frameIds (DialogShow r cd) = [r, cd]"
| "frameIds (ShowReply q h r) = [q, r]"
| "frameIds (HandlerEncrypt h c q) = [q]"

fun promiseId :: "promise \<Rightarrow> nat" where
  "promiseId (PResolve n) = n"
| "promiseId (PDoResolve n) = n"
| "promiseId (PDialog n) = n"
| "promiseId (PShow n) = n"
| "promiseId (PReply n) = n"

definition fresh :: "state \<Rightarrow> bool" where
  "fresh s \<longleftrightarrow>
     (\<forall>t. nextTask s \<le> t \<longrightarrow> tasks s t = None) \<and>
     (\<forall>k. nextPromise s \<le> promiseId k \<longrightarrow> promises s k = Pending) \<and>
     (\<forall>t f. tasks s t = Some f \<longrightarrow> (\<forall>i \<in> set (frameIds f). i < nextPromise s)) \<and>
     (\<forall>ch h q. handlers s ch = Some (h, q) \<longrightarrow> q < nextPromise s) \<and>
     (\<forall>cd. currentDialog s = Some cd \<longrightarrow> cd < nextPromise s) \<and>
     (\<forall>h p. pendingProxyResolves s h = Some p \<longrightarrow> p < nextPromise s)"

text \<open>The frames of one kind among the suspended frames.\<close>

definition keep :: "(frame \<Rightarrow> bool) \<Rightarrow> (nat \<rightharpoonup> frame) \<Rightarrow> (nat \<rightharpoonup> frame)" where
  "keep K T = (\<lambda>t. case T t of None \<Rightarrow> None | Some f \<Rightarrow> if K f then Some f else None)"

text \<open>Single flight: the frames of \<open>onLogin\<close> that started a resolution (line 92) and
  the entries of \<open>pendingProxyResolves\<close> correspond one to one, at most one per
  hash.\<close>

fun isOnLoginNew :: "frame \<Rightarrow> bool" where
  "isOnLoginNew (OnLoginNew c h p cb) = True"
| "isOnLoginNew _ = False"

definition singleFlight :: "(nat \<rightharpoonup> frame) \<Rightarrow> (string \<rightharpoonup> nat) \<Rightarrow> bool" where
  "singleFlight F P \<longleftrightarrow>
     (\<forall>t c h p cb. F t = Some (OnLoginNew c h p cb) \<longrightarrow> P h = Some p) \<and>
     (\<forall>h p. P h = Some p \<longrightarrow> (\<exists>t c cb. F t = Some (OnLoginNew c h p cb))) \<and>
     (\<forall>t t' c h p cb c' p' cb'.
        F t = Some (OnLoginNew c h p cb) \<and> F t' = Some (OnLoginNew c' h p' cb') \<longrightarrow> t = t')"

definition singleFlightInv :: "state \<Rightarrow> bool" where
  "singleFlightInv s \<longleftrightarrow> singleFlight (keep isOnLoginNew (tasks s)) (pendingProxyResolves s)"

text \<open>Promises settle once: what a state has settled, a later state holds unchanged.\<close>

definition settledKept :: "state \<Rightarrow> state \<Rightarrow> bool" where
  "settledKept s s' \<longleftrightarrow> (\<forall>k. promises s k \<noteq> Pending \<longrightarrow> promises s' k = promises s k)"



text \<open>The prompts a trace holds for one hash.\<close>

fun promptFor :: "string \<Rightarrow> effect \<Rightarrow> bool" where
  "promptFor h (OpenDialog ch ai h' u p) = (h' = h)"
| "promptFor h _ = False"

definition promptsFor :: "string \<Rightarrow> state \<Rightarrow> effect list" where
  "promptsFor h s = filter (promptFor h) (trace s)"

definition staysCancelled :: "string \<Rightarrow> state \<Rightarrow> state \<Rightarrow> bool" where
  "staysCancelled h s s' \<longleftrightarrow>
     h \<in> cancelledAuthInfoHashes s' \<and> promptsFor h s' = promptsFor h s"

text \<open>After the cancelled prompt of the example, a second attempt for the same proxy,
  run to its end.\<close>

definition retryAfterCancel :: "AuthInfo \<Rightarrow> event list" where
  "retryAfterCancel ai = [Login ai True, Run 5, Run 5, Run 6, Run 7, Run 8]"

text \<open>The dialog queue. \<open>waiting F PD np c ts e\<close>: the tasks \<open>ts\<close> hold, in this order,
  dialog closures that each wait (line 171) for the dialog promise of the one
  before, the first for \<open>c\<close>; their own dialog promises are pending and their numbers
  grow along the list, and \<open>e\<close> is the dialog promise of the last (\<open>c\<close> when there is
  none). \<open>headOK\<close>: the first closure of the queue is past its wait (line 172), or
  it waits for nothing or for a settled promise. \<open>chain\<close>: \<open>ts\<close> lists exactly the
  tasks that hold dialog closures, and \<open>currentDialog\<close> is the promise of the last.\<close>

fun isDialogFrame :: "frame \<Rightarrow> bool" where
  "isDialogFrame (DialogWait pd ai h su sp cd) = True"
| "isDialogFrame (DialogShow r cd) = True"
| "isDialogFrame _ = False"

fun waiting :: "(nat \<rightharpoonup> frame) \<Rightarrow> (nat \<Rightarrow> outcome) \<Rightarrow> nat \<Rightarrow> nat \<Rightarrow> nat list \<Rightarrow> nat \<Rightarrow> bool" where
  "waiting F PD np c [] e = (e = c)"
| "waiting F PD np c (t # ts) e =
     (\<exists>ai h su sp cd. F t = Some (DialogWait (Some c) ai h su sp cd) \<and> c < cd \<and> cd < np \<and>
        PD cd = Pending \<and> waiting F PD np cd ts e)"

definition headOK :: "(nat \<rightharpoonup> frame) \<Rightarrow> (nat \<Rightarrow> outcome) \<Rightarrow> nat \<Rightarrow> nat \<Rightarrow> bool" where
  "headOK F PD t cd \<longleftrightarrow>
     (\<exists>r. F t = Some (DialogShow r cd)) \<or>
     (\<exists>ai h su sp. F t = Some (DialogWait None ai h su sp cd)) \<or>
     (\<exists>c ai h su sp. F t = Some (DialogWait (Some c) ai h su sp cd) \<and> c < cd \<and> PD c \<noteq> Pending)"

definition chain :: "(nat \<rightharpoonup> frame) \<Rightarrow> (nat \<Rightarrow> outcome) \<Rightarrow> nat option \<Rightarrow> nat \<Rightarrow> nat list \<Rightarrow> bool" where
  "chain F PD cur np ts \<longleftrightarrow>
     (\<forall>t. F t \<noteq> None \<longleftrightarrow> t \<in> set ts) \<and>
     (case ts of
        [] \<Rightarrow> cur = None
      | t # rest \<Rightarrow>
          (\<exists>cd e. headOK F PD t cd \<and> cd < np \<and> PD cd = Pending \<and>
             waiting F PD np cd rest e \<and> cur = Some e))"

text \<open>The promises of the dialog closures, of \<open>showProxyCredentialsDialog\<close> and of
  line 211 are never rejected.\<close>

definition noReject :: "state \<Rightarrow> bool" where
  "noReject s \<longleftrightarrow>
     (\<forall>n e. promises s (PDialog n) \<noteq> Rejected e \<and> promises s (PShow n) \<noteq> Rejected e \<and>
        promises s (PReply n) \<noteq> Rejected e)"

definition dialogQueue :: "state \<Rightarrow> nat list \<Rightarrow> bool" where
  "dialogQueue s ts \<longleftrightarrow>
     chain (keep isDialogFrame (tasks s)) (\<lambda>n. promises s (PDialog n)) (currentDialog s)
       (nextPromise s) ts"

text \<open>The prompt. Among the frames of \<open>showProxyCredentialsDialog\<close> (line 211), of the
  reply listener (line 224) and of dialog closures past their wait (line 172),
  with the registered listeners: either no prompt is in progress (\<open>idle\<close>), or exactly
  one call of \<open>showProxyCredentialsDialog\<close> waits for its reply, a dialog closure waits
  for that call, and the prompt is open with its one listener registered
  (\<open>promptOpen\<close>), or the reply has come (\<open>promptReplied\<close>), or the reply has come and
  its credentials are being encrypted (\<open>promptEncrypting\<close>).\<close>

fun isPromptFrame :: "frame \<Rightarrow> bool" where
  "isPromptFrame (DialogShow r cd) = True"
| "isPromptFrame (ShowReply q h r) = True"
| "isPromptFrame (HandlerEncrypt h c q) = True"
| "isPromptFrame _ = False"

definition noReplyFrames :: "(nat \<rightharpoonup> frame) \<Rightarrow> bool" where
  "noReplyFrames W \<longleftrightarrow> (\<forall>t q h r. W t \<noteq> Some (ShowReply q h r))"

definition noEncryptFrames :: "(nat \<rightharpoonup> frame) \<Rightarrow> bool" where
  "noEncryptFrames W \<longleftrightarrow> (\<forall>t h c q. W t \<noteq> Some (HandlerEncrypt h c q))"

definition idle :: "(nat \<rightharpoonup> frame) \<Rightarrow> (nat \<rightharpoonup> string \<times> nat) \<Rightarrow> bool" where
  "idle W H \<longleftrightarrow> H = Map.empty \<and> noReplyFrames W \<and> noEncryptFrames W"

definition showing :: "(nat \<rightharpoonup> frame) \<Rightarrow> (nat \<Rightarrow> outcome) \<Rightarrow> nat \<Rightarrow> nat \<Rightarrow> string \<Rightarrow> nat \<Rightarrow> bool" where
  "showing W PS t q h r \<longleftrightarrow>
     W t = Some (ShowReply q h r) \<and>
     (\<forall>u q' h' r'. W u = Some (ShowReply q' h' r') \<longrightarrow> u = t) \<and>
     (\<exists>t' cd. W t' = Some (DialogShow r cd)) \<and> PS r = Pending"

definition promptOpen ::
  "(nat \<rightharpoonup> frame) \<Rightarrow> (nat \<Rightarrow> outcome) \<Rightarrow> (nat \<Rightarrow> outcome) \<Rightarrow> (nat \<rightharpoonup> string \<times> nat) \<Rightarrow>
   nat \<Rightarrow> nat \<Rightarrow> string \<Rightarrow> nat \<Rightarrow> bool" where
  "promptOpen W PS PR H t q h r \<longleftrightarrow>
     showing W PS t q h r \<and> (\<exists>ch. H = [ch \<mapsto> (h, q)]) \<and> PR q = Pending \<and> noEncryptFrames W"

definition promptReplied ::
  "(nat \<rightharpoonup> frame) \<Rightarrow> (nat \<Rightarrow> outcome) \<Rightarrow> (nat \<rightharpoonup> string \<times> nat) \<Rightarrow>
   nat \<Rightarrow> nat \<Rightarrow> string \<Rightarrow> nat \<Rightarrow> bool" where
  "promptReplied W PS H t q h r \<longleftrightarrow>
     showing W PS t q h r \<and> H = Map.empty \<and> noEncryptFrames W"

definition promptEncrypting ::
  "(nat \<rightharpoonup> frame) \<Rightarrow> (nat \<Rightarrow> outcome) \<Rightarrow> (nat \<Rightarrow> outcome) \<Rightarrow> (nat \<rightharpoonup> string \<times> nat) \<Rightarrow>
   nat \<Rightarrow> nat \<Rightarrow> string \<Rightarrow> nat \<Rightarrow> bool" where
  "promptEncrypting W PS PR H t q h r \<longleftrightarrow>
     showing W PS t q h r \<and> H = Map.empty \<and> PR q = Pending \<and>
     (\<exists>t2 c. W t2 = Some (HandlerEncrypt h c q) \<and>
        (\<forall>u h' c' q'. W u = Some (HandlerEncrypt h' c' q') \<longrightarrow> u = t2))"

definition phase ::
  "(nat \<rightharpoonup> frame) \<Rightarrow> (nat \<Rightarrow> outcome) \<Rightarrow> (nat \<Rightarrow> outcome) \<Rightarrow> (nat \<rightharpoonup> string \<times> nat) \<Rightarrow> bool" where
  "phase W PS PR H \<longleftrightarrow>
     idle W H \<or>
     (\<exists>t q h r. promptOpen W PS PR H t q h r \<or> promptReplied W PS H t q h r \<or>
        promptEncrypting W PS PR H t q h r)"

definition promptInv :: "state \<Rightarrow> bool" where
  "promptInv s \<longleftrightarrow>
     phase (keep isPromptFrame (tasks s)) (\<lambda>n. promises s (PShow n))
       (\<lambda>n. promises s (PReply n)) (handlers s)"










section \<open>Properties\<close>

lemmas prim_defs = allocPromise_def settle_def suspend_def finish_def continue_def emit_def
  storageStore_def storageRemove_def
lemmas model_defs = prim_defs prefill_def showProxyCredentialsDialog_def proxyAuthResponseHandler_def
  resumeHandlerEncrypt_def resumeShowReply_def resumeDialogWait_def resumeDialogShow_def
  storedStrings_def doResolveAfterLookup_def readDecrypted_def resumeDoResolveDecrypt_def
  doResolveProxyCredentials_def resumeDoResolveReturn_def resolveProxyCredentials_def
  resumeResolve_def finishOnLogin_def resumeOnLoginNew_def resumeOnLoginJoin_def onLogin_def
lemmas example_defs = exampleEnv_def proxyChallenge_def directChallenge_def authInfoHash_def
  storageKey_def PROXY_CREDENTIALS_SERVICE_KEY_def run_def initial_def

subsection \<open>Challenges that are not for a proxy\<close>

text \<open>C8. A call of \<open>onLogin\<close> (from the \<open>login\<close> event or from
  \<open>lookupAuthorization\<close>) with \<open>isProxy\<close> false returns \<open>undefined\<close> in the same step:
  the only effect is that its promise is fulfilled with no credentials. The session
  credentials, the storage, the cancelled hashes, the pending resolves, the current
  dialog, the suspended frames, the promises and the listeners stay as they are, and
  the callback is not called.\<close>

theorem non_proxy_inert:
  assumes "\<not> isProxy ai"
  shows "sessionCredentials (step E s (Login ai cb)) = sessionCredentials s \<and>
         storage (step E s (Login ai cb)) = storage s \<and>
         cancelledAuthInfoHashes (step E s (Login ai cb)) = cancelledAuthInfoHashes s \<and>
         pendingProxyResolves (step E s (Login ai cb)) = pendingProxyResolves s \<and>
         currentDialog (step E s (Login ai cb)) = currentDialog s \<and>
         tasks (step E s (Login ai cb)) = tasks s \<and>
         promises (step E s (Login ai cb)) = promises s \<and>
         handlers (step E s (Login ai cb)) = handlers s \<and>
         trace (step E s (Login ai cb)) = trace s @ [Returned (nextCall s) (Fulfilled None)]"
  using assms by (simp add: onLogin_def emit_def Let_def)

text \<open>The theorem at a challenge for a web site, arriving while a proxy prompt is open.\<close>

theorem non_proxy_inert_witness:
  "\<not> isProxy directChallenge \<and>
   trace (step exampleEnv dialogOpen (Login directChallenge True)) =
     trace dialogOpen @ [Returned 1 (Fulfilled None)] \<and>
   tasks (step exampleEnv dialogOpen (Login directChallenge True)) = tasks dialogOpen \<and>
   sessionCredentials (step exampleEnv dialogOpen (Login directChallenge True)) =
     sessionCredentials dialogOpen"
proof -
  have np: "\<not> isProxy directChallenge" by (simp add: directChallenge_def)
  have nc: "nextCall dialogOpen = 1"
    by (simp add: dialogOpen_def example_defs model_defs Let_def)
  from non_proxy_inert [OF np, of exampleEnv dialogOpen True] np nc show ?thesis by simp
qed

subsection \<open>A cancelled prompt\<close>


lemma decryptPending_facts:
  "tasks (decryptPending n) 0 = Some (DoResolveDecrypt (proxyChallenge n) ''basic:proxy.example'' 1)"
  "nextTask (decryptPending n) = 3" "nextPromise (decryptPending n) = 2"
  "currentDialog (decryptPending n) = None"
  "sessionCredentials (decryptPending n) = Map.empty"
  "promises (decryptPending n) = (\<lambda>_. Pending)"
  "trace (decryptPending n) = [StorageGet ''proxy-credentials://basic:proxy.example'', Decrypt ''blob'']"
  "nextChannel (decryptPending n) = 0"
  "cancelledAuthInfoHashes (decryptPending n) = {}"
  "hasWindow (decryptPending n)"
  "storage (decryptPending n) = storedBlob"
  by (simp_all add: decryptPending_def storedBlob_def example_defs model_defs Let_def)















subsection \<open>Runs\<close>

lemmas scenario_defs = run_def initial_def authInfoHash_def

lemma run_append: "run E s (es @ es') = run E (run E s es) es'"
  by (simp add: run_def)

lemma example_hash:
  "authInfoHash exampleEnv (proxyChallenge n) = ''basic:proxy.example''"
  "storageKey ''basic:proxy.example'' = ''proxy-credentials://basic:proxy.example''"
  "isProxy (proxyChallenge n)" "attempt (proxyChallenge n) = n"
  by (simp_all add: example_defs)

lemma userCancelled_eq: "userCancelled = run exampleEnv (initial Map.empty True) (cancelRun (proxyChallenge 1))"
  by (simp add: userCancelled_def replyCancelled_def dialogOpen_def cancelRun_def run_def)

lemma cancelRun_state:
  assumes "isProxy ai" "attempt ai = 1"
  shows "sessionCredentials (run E (initial Map.empty True) (cancelRun ai)) (authInfoHash E ai) = Some None"
    and "authInfoHash E ai \<in> cancelledAuthInfoHashes (run E (initial Map.empty True) (cancelRun ai))"
    and "pendingProxyResolves (run E (initial Map.empty True) (cancelRun ai)) (authInfoHash E ai) = None"
    and "trace (run E (initial Map.empty True) (cancelRun ai)) =
          [StorageGet (storageKey (authInfoHash E ai)), OpenDialog 0 ai (authInfoHash E ai) None None,
           Callback 0 None None, Returned 0 (Fulfilled None)]"
    and "nextTask (run E (initial Map.empty True) (cancelRun ai)) = 5"
    and "nextPromise (run E (initial Map.empty True) (cancelRun ai)) = 5"
    and "nextCall (run E (initial Map.empty True) (cancelRun ai)) = 1"
    and "promises (run E (initial Map.empty True) (cancelRun ai)) (PDoResolve 6) = Pending"
    and "promises (run E (initial Map.empty True) (cancelRun ai)) (PResolve 5) = Pending"
    and "promises (run E (initial Map.empty True) (cancelRun ai)) (PDialog 7) = Pending"
    and "promises (run E (initial Map.empty True) (cancelRun ai)) (PShow 8) = Pending"
    and "currentDialog (run E (initial Map.empty True) (cancelRun ai)) = None"
    and "\<not> storageFails (run E (initial Map.empty True) (cancelRun ai))"
    and "storage (run E (initial Map.empty True) (cancelRun ai)) = Map.empty"
  using assms by (simp_all add: cancelRun_def scenario_defs model_defs Let_def)

subsection \<open>No window for the prompt\<close>

lemma no_window_step:
  assumes "tasks s t = Some (DialogWait pd ai h su sp cd)"
    "pd = None \<or> (\<exists>c v. pd = Some c \<and> promises s (PDialog c) = Fulfilled v)"
    "\<not> hasWindow s" "promises s (PShow (nextPromise s)) = Pending"
  shows "step E s (Run t) =
           s\<lparr>nextPromise := Suc (nextPromise s),
             promises := (promises s)(PShow (nextPromise s) := Fulfilled None),
             tasks := (tasks s)(t \<mapsto> DialogShow (nextPromise s) cd)\<rparr>"
  using assms
  by (auto simp: resumeDialogWait_def showProxyCredentialsDialog_def prim_defs Let_def)

lemma no_window_run:
  assumes "isProxy ai"
  shows "trace (run E (initial Map.empty False) (noWindowRun ai)) =
        [StorageGet (storageKey (authInfoHash E ai)), Callback 0 None None,
         Returned 0 (Fulfilled None)]"
    and "cancelledAuthInfoHashes (run E (initial Map.empty False) (noWindowRun ai)) = {}"
    and "trace (run E (initial Map.empty False)
               (noWindowRun ai @ [SetWindow True, Login ai True, Run 4])) =
        [StorageGet (storageKey (authInfoHash E ai)), Callback 0 None None,
         Returned 0 (Fulfilled None),
         StorageGet (storageKey (authInfoHash E ai)),
         OpenDialog 0 ai (authInfoHash E ai) None None]"
proof -
  show "trace (run E (initial Map.empty False) (noWindowRun ai)) =
        [StorageGet (storageKey (authInfoHash E ai)), Callback 0 None None,
         Returned 0 (Fulfilled None)]"
    using assms
    by (cases "attempt ai = 1") (simp_all add: noWindowRun_def scenario_defs model_defs Let_def)
  show "cancelledAuthInfoHashes (run E (initial Map.empty False) (noWindowRun ai)) = {}"
    using assms
    by (cases "attempt ai = 1") (simp_all add: noWindowRun_def scenario_defs model_defs Let_def)
  show "trace (run E (initial Map.empty False)
               (noWindowRun ai @ [SetWindow True, Login ai True, Run 4])) =
        [StorageGet (storageKey (authInfoHash E ai)), Callback 0 None None,
         Returned 0 (Fulfilled None),
         StorageGet (storageKey (authInfoHash E ai)),
         OpenDialog 0 ai (authInfoHash E ai) None None]"
    using assms
    by (cases "attempt ai = 1") (simp_all add: noWindowRun_def scenario_defs model_defs Let_def)
qed

text \<open>C9. When \<open>showProxyCredentialsDialog\<close> finds no window (lines 191 to 196) it
  returns \<open>undefined\<close> without a prompt and without touching
  \<open>cancelledAuthInfoHashes\<close>, the session credentials, the storage or the listeners.
  In the run of one call on a service without a window the caller gets no
  credentials and no hash is cancelled; once a window exists, the next challenge
  for the same hash opens the prompt.\<close>

theorem no_window_not_memoized:
  "(tasks s t = Some (DialogWait pd ai h su sp cd) \<and>
    (pd = None \<or> (\<exists>c v. pd = Some c \<and> promises s (PDialog c) = Fulfilled v)) \<and>
    \<not> hasWindow s \<and> promises s (PShow (nextPromise s)) = Pending \<longrightarrow>
      cancelledAuthInfoHashes (step E s (Run t)) = cancelledAuthInfoHashes s \<and>
      promises (step E s (Run t)) (PShow (nextPromise s)) = Fulfilled None \<and>
      tasks (step E s (Run t)) = (tasks s)(t \<mapsto> DialogShow (nextPromise s) cd) \<and>
      handlers (step E s (Run t)) = handlers s \<and>
      sessionCredentials (step E s (Run t)) = sessionCredentials s \<and>
      storage (step E s (Run t)) = storage s \<and>
      trace (step E s (Run t)) = trace s) \<and>
   (isProxy ai' \<longrightarrow>
      trace (run E (initial Map.empty False) (noWindowRun ai')) =
        [StorageGet (storageKey (authInfoHash E ai')), Callback 0 None None,
         Returned 0 (Fulfilled None)] \<and>
      cancelledAuthInfoHashes (run E (initial Map.empty False) (noWindowRun ai')) = {} \<and>
      trace (run E (initial Map.empty False)
               (noWindowRun ai' @ [SetWindow True, Login ai' True, Run 4])) =
        [StorageGet (storageKey (authInfoHash E ai')), Callback 0 None None,
         Returned 0 (Fulfilled None),
         StorageGet (storageKey (authInfoHash E ai')),
         OpenDialog 0 ai' (authInfoHash E ai') None None])"
proof (intro conjI impI)
  assume a: "tasks s t = Some (DialogWait pd ai h su sp cd) \<and>
    (pd = None \<or> (\<exists>c v. pd = Some c \<and> promises s (PDialog c) = Fulfilled v)) \<and>
    \<not> hasWindow s \<and> promises s (PShow (nextPromise s)) = Pending"
  then have eq: "step E s (Run t) =
           s\<lparr>nextPromise := Suc (nextPromise s),
             promises := (promises s)(PShow (nextPromise s) := Fulfilled None),
             tasks := (tasks s)(t \<mapsto> DialogShow (nextPromise s) cd)\<rparr>"
    using no_window_step [of s t pd ai h su sp cd E] by blast
  show "cancelledAuthInfoHashes (step E s (Run t)) = cancelledAuthInfoHashes s"
    and "promises (step E s (Run t)) (PShow (nextPromise s)) = Fulfilled None"
    and "tasks (step E s (Run t)) = (tasks s)(t \<mapsto> DialogShow (nextPromise s) cd)"
    and "handlers (step E s (Run t)) = handlers s"
    and "sessionCredentials (step E s (Run t)) = sessionCredentials s"
    and "storage (step E s (Run t)) = storage s"
    and "trace (step E s (Run t)) = trace s"
    unfolding eq by simp_all
qed (simp_all add: no_window_run)

text \<open>The theorem at the example proxy, on a service without a window.\<close>

theorem no_window_not_memoized_witness:
  "tasks (step exampleEnv (initial Map.empty False) (Login (proxyChallenge 1) True)) 0 =
     Some (DialogWait None (proxyChallenge 1) ''basic:proxy.example'' None None 2) \<and>
   \<not> hasWindow (step exampleEnv (initial Map.empty False) (Login (proxyChallenge 1) True)) \<and>
   isProxy (proxyChallenge 1) \<and>
   cancelledAuthInfoHashes (run exampleEnv (initial Map.empty False) [Login (proxyChallenge 1) True, Run 0]) = {} \<and>
   promises (run exampleEnv (initial Map.empty False) [Login (proxyChallenge 1) True, Run 0]) (PShow 3) =
     Fulfilled None \<and>
   cancelledAuthInfoHashes (run exampleEnv (initial Map.empty False) (noWindowRun (proxyChallenge 1))) = {} \<and>
   trace (run exampleEnv (initial Map.empty False)
            (noWindowRun (proxyChallenge 1) @ [SetWindow True, Login (proxyChallenge 1) True, Run 4])) =
     [StorageGet ''proxy-credentials://basic:proxy.example'', Callback 0 None None,
      Returned 0 (Fulfilled None),
      StorageGet ''proxy-credentials://basic:proxy.example'',
      OpenDialog 0 (proxyChallenge 1) ''basic:proxy.example'' None None]"
proof -
  let ?s = "step exampleEnv (initial Map.empty False) (Login (proxyChallenge 1) True)"
  have h: "authInfoHash exampleEnv (proxyChallenge 1) = ''basic:proxy.example''"
    "storageKey ''basic:proxy.example'' = ''proxy-credentials://basic:proxy.example''"
    by (simp_all add: example_defs)
  have p: "isProxy (proxyChallenge 1)" "attempt (proxyChallenge 1) = 1"
    by (simp_all add: proxyChallenge_def)
  have s: "tasks ?s 0 = Some (DialogWait None (proxyChallenge 1) (authInfoHash exampleEnv (proxyChallenge 1)) None None 2)"
    "\<not> hasWindow ?s" "promises ?s (PShow (nextPromise ?s)) = Pending" "nextPromise ?s = 3"
    "cancelledAuthInfoHashes ?s = {}"
    using p by (simp_all add: initial_def model_defs Let_def)
  have r: "run exampleEnv (initial Map.empty False) [Login (proxyChallenge 1) True, Run 0] =
      step exampleEnv ?s (Run 0)"
    by (simp add: run_def)
  note th = no_window_not_memoized [where E = exampleEnv and ai' = "proxyChallenge 1"
      and s = ?s and t = 0 and pd = None and ai = "proxyChallenge 1"
      and h = "''basic:proxy.example''" and su = None and sp = None and cd = 2]
  from th s p show ?thesis
    unfolding r by (simp add: h)
qed


subsection \<open>A second attempt\<close>




subsection \<open>Failed reads of the storage\<close>

lemma readDecrypted_fails: "readFails E x \<Longrightarrow> \<exists>e. readDecrypted E x = Inl e"
  by (auto simp: readFails_def readDecrypted_def split: option.splits)

lemma store_fetch_failure:
  assumes "storageFails s" "attempt ai = 1 \<longrightarrow> sessionCredentials s h = None"
  shows "snd (doResolveProxyCredentials E ai h s) =
           (snd (doResolveProxyCredentials E ai h
                  (s\<lparr>storageFails := False, storage := (storage s)(storageKey h := None)\<rparr>)))
           \<lparr>storageFails := True, storage := storage s,
            trace := trace s @ [LogError StorageError]\<rparr>"
  using assms
  by (auto simp: doResolveProxyCredentials_def doResolveAfterLookup_def storedStrings_def
      prim_defs Let_def split: option.splits)

lemma store_read_failure:
  assumes "tasks s t = Some (DoResolveDecrypt ai h d)" "readFails E x"
  shows "\<exists>e. trace (step E s (DecryptDone t x)) = trace s @ [LogError e]"
    and "tasks (step E s (DecryptDone t x)) =
           (tasks s)(t := None,
              nextTask s \<mapsto> DialogWait (currentDialog s) ai h None None (nextPromise s),
              Suc (nextTask s) \<mapsto> DoResolveReturn (nextPromise s) d)"
    and "currentDialog (step E s (DecryptDone t x)) = Some (nextPromise s)"
    and "promises (step E s (DecryptDone t x)) = promises s"
    and "sessionCredentials (step E s (DecryptDone t x)) = sessionCredentials s"
    and "storage (step E s (DecryptDone t x)) = storage s"
    and "cancelledAuthInfoHashes (step E s (DecryptDone t x)) = cancelledAuthInfoHashes s"
proof -
  from readDecrypted_fails [OF assms(2)] obtain e where e: "readDecrypted E x = Inl e" ..
  have eq: "step E s (DecryptDone t x) =
      doResolveAfterLookup ai h None None d (emit (LogError e) (finish t s))"
    using assms(1) e by (simp add: resumeDoResolveDecrypt_def)
  have "trace (step E s (DecryptDone t x)) = trace s @ [LogError e]"
    unfolding eq by (simp add: doResolveAfterLookup_def storedStrings_def prim_defs Let_def)
  then show "\<exists>e. trace (step E s (DecryptDone t x)) = trace s @ [LogError e]" ..
  show "tasks (step E s (DecryptDone t x)) =
           (tasks s)(t := None,
              nextTask s \<mapsto> DialogWait (currentDialog s) ai h None None (nextPromise s),
              Suc (nextTask s) \<mapsto> DoResolveReturn (nextPromise s) d)"
    and "currentDialog (step E s (DecryptDone t x)) = Some (nextPromise s)"
    and "promises (step E s (DecryptDone t x)) = promises s"
    and "sessionCredentials (step E s (DecryptDone t x)) = sessionCredentials s"
    and "storage (step E s (DecryptDone t x)) = storage s"
    and "cancelledAuthInfoHashes (step E s (DecryptDone t x)) = cancelledAuthInfoHashes s"
    unfolding eq by (simp_all add: doResolveAfterLookup_def storedStrings_def prim_defs Let_def)
qed

lemma no_stored_entry:
  assumes "\<not> storageFails s" "attempt ai = 1 \<longrightarrow> sessionCredentials s h = None"
    "storage s (storageKey h) = None \<or> storage s (storageKey h) = Some []"
  shows "tasks (snd (doResolveProxyCredentials E ai h s)) =
           (tasks s)(nextTask s \<mapsto> DialogWait (currentDialog s) ai h None None (Suc (nextPromise s)),
              Suc (nextTask s) \<mapsto> DoResolveReturn (Suc (nextPromise s)) (nextPromise s))"
  using assms
  by (auto simp: doResolveProxyCredentials_def doResolveAfterLookup_def storedStrings_def
      prim_defs Let_def split: option.splits)

text \<open>C6. A failure while the stored entry is read is caught and the resolution
  goes on as without an entry. When \<open>get\<close> throws, the state after
  \<open>doResolveProxyCredentials\<close> is the state the call reaches on a working storage
  without an entry for the hash, but for the storage itself and the logged error.
  When the decryption is rejected, or \<open>JSON.parse\<close> throws or gives \<open>null\<close>, the
  call logs the error, settles nothing, writes no session credentials and starts
  the dialog closure with no stored user name and password, which is the frame the
  call starts when the storage has no entry (or an empty one).\<close>

theorem store_failure_is_no_entry:
  "(storageFails s \<and> (attempt ai = 1 \<longrightarrow> sessionCredentials s h = None) \<longrightarrow>
      snd (doResolveProxyCredentials E ai h s) =
        (snd (doResolveProxyCredentials E ai h
               (s\<lparr>storageFails := False, storage := (storage s)(storageKey h := None)\<rparr>)))
        \<lparr>storageFails := True, storage := storage s,
         trace := trace s @ [LogError StorageError]\<rparr>) \<and>
   (\<not> storageFails s \<and> (attempt ai = 1 \<longrightarrow> sessionCredentials s h = None) \<and>
    (storage s (storageKey h) = None \<or> storage s (storageKey h) = Some []) \<longrightarrow>
      tasks (snd (doResolveProxyCredentials E ai h s)) =
        (tasks s)(nextTask s \<mapsto> DialogWait (currentDialog s) ai h None None (Suc (nextPromise s)),
           Suc (nextTask s) \<mapsto> DoResolveReturn (Suc (nextPromise s)) (nextPromise s))) \<and>
   (tasks s t = Some (DoResolveDecrypt ai h d) \<and> readFails E x \<longrightarrow>
      (\<exists>e. trace (step E s (DecryptDone t x)) = trace s @ [LogError e]) \<and>
      tasks (step E s (DecryptDone t x)) =
        (tasks s)(t := None,
           nextTask s \<mapsto> DialogWait (currentDialog s) ai h None None (nextPromise s),
           Suc (nextTask s) \<mapsto> DoResolveReturn (nextPromise s) d) \<and>
      currentDialog (step E s (DecryptDone t x)) = Some (nextPromise s) \<and>
      promises (step E s (DecryptDone t x)) = promises s \<and>
      sessionCredentials (step E s (DecryptDone t x)) = sessionCredentials s \<and>
      storage (step E s (DecryptDone t x)) = storage s \<and>
      cancelledAuthInfoHashes (step E s (DecryptDone t x)) = cancelledAuthInfoHashes s)"
  using store_fetch_failure [of s ai h E] no_stored_entry [of s ai h E]
    store_read_failure [of s t ai h d E x]
  by blast

text \<open>The theorem at the example with a stored entry: the decrypted text is
  \<open>null\<close>, is not JSON, or the decryption is rejected.\<close>

theorem store_failure_is_no_entry_witness:
  "tasks (decryptPending 1) 0 = Some (DoResolveDecrypt (proxyChallenge 1) ''basic:proxy.example'' 1) \<and>
   readFails exampleEnv (Some ''null'') \<and> readFails exampleEnv (Some ''garbled'') \<and>
   readFails exampleEnv None \<and>
   tasks (step exampleEnv (decryptPending 1) (DecryptDone 0 (Some ''null''))) 3 =
     Some (DialogWait None (proxyChallenge 1) ''basic:proxy.example'' None None 2) \<and>
   tasks (step exampleEnv (decryptPending 1) (DecryptDone 0 (Some ''garbled''))) 3 =
     Some (DialogWait None (proxyChallenge 1) ''basic:proxy.example'' None None 2) \<and>
   tasks (step exampleEnv (decryptPending 1) (DecryptDone 0 None)) 3 =
     Some (DialogWait None (proxyChallenge 1) ''basic:proxy.example'' None None 2) \<and>
   promises (step exampleEnv (decryptPending 1) (DecryptDone 0 None)) = (\<lambda>_. Pending) \<and>
   storage (step exampleEnv (decryptPending 1) (DecryptDone 0 None)) = storedBlob"
proof -
  have f: "readFails exampleEnv (Some ''null'')" "readFails exampleEnv (Some ''garbled'')"
    "readFails exampleEnv None"
    by (simp_all add: readFails_def exampleEnv_def)
  note th = store_failure_is_no_entry [where s = "decryptPending 1" and t = 0
      and ai = "proxyChallenge 1" and h = "''basic:proxy.example''" and d = 1 and E = exampleEnv]
  from th [where x = "Some ''null''", THEN conjunct2, THEN conjunct2]
    th [where x = "Some ''garbled''", THEN conjunct2, THEN conjunct2]
    th [where x = None, THEN conjunct2, THEN conjunct2] f
  show ?thesis
    by (simp add: decryptPending_facts)
qed


subsection \<open>The session entry of a cancelled prompt\<close>

lemma cancelled_reply_sets_undefined:
  assumes "tasks s t = Some (ShowReply q h r)" "promises s (PReply q) = Fulfilled None"
  shows "sessionCredentials (step E s (Run t)) h = Some None"
  using assms by (simp add: resumeShowReply_def prim_defs)

lemma undefined_session_throws:
  assumes "isProxy ai" "attempt ai = 1" "sessionCredentials s (authInfoHash E ai) = Some None"
    "pendingProxyResolves s (authInfoHash E ai) = None"
    "promises s (PDoResolve (Suc (nextPromise s))) = Pending"
    "promises s (PResolve (nextPromise s)) = Pending"
  shows "trace (run E s [Login ai cb, Run (nextTask s), Run (Suc (nextTask s))]) =
           trace s @ [Returned (nextCall s) (Rejected TypeError)]"
  using assms
  by (simp add: run_def onLogin_def resolveProxyCredentials_def doResolveProxyCredentials_def
      resumeResolve_def resumeOnLoginNew_def finishOnLogin_def prim_defs Let_def)

text \<open>C10. When \<open>showProxyCredentialsDialog\<close> goes on after a cancelled reply, the
  session credentials map the hash to \<open>undefined\<close>. In every state where the hash
  is mapped to \<open>undefined\<close> and no resolution is pending for it, a challenge with
  attempt 1 takes the branch of line 138 and throws: the promise of the call is
  rejected with a TypeError and the callback is not called. Such a state is
  reached by one cancelled prompt, from a new service.\<close>

theorem undefined_session_entry_throws:
  "(tasks s t = Some (ShowReply q h r) \<and> promises s (PReply q) = Fulfilled None \<longrightarrow>
      sessionCredentials (step E s (Run t)) h = Some None) \<and>
   (isProxy ai \<and> attempt ai = 1 \<and> sessionCredentials s (authInfoHash E ai) = Some None \<and>
    pendingProxyResolves s (authInfoHash E ai) = None \<and>
    promises s (PDoResolve (Suc (nextPromise s))) = Pending \<and>
    promises s (PResolve (nextPromise s)) = Pending \<longrightarrow>
      trace (run E s [Login ai cb, Run (nextTask s), Run (Suc (nextTask s))]) =
        trace s @ [Returned (nextCall s) (Rejected TypeError)]) \<and>
   (isProxy ai \<and> attempt ai = 1 \<longrightarrow>
      sessionCredentials (run E (initial Map.empty True) (cancelRun ai)) (authInfoHash E ai) =
        Some None \<and>
      trace (run E (initial Map.empty True) (cancelRun ai @ [Login ai cb, Run 5, Run 6])) =
        [StorageGet (storageKey (authInfoHash E ai)),
         OpenDialog 0 ai (authInfoHash E ai) None None,
         Callback 0 None None, Returned 0 (Fulfilled None),
         Returned 1 (Rejected TypeError)])"
proof (intro conjI impI)
  assume "tasks s t = Some (ShowReply q h r) \<and> promises s (PReply q) = Fulfilled None"
  then show "sessionCredentials (step E s (Run t)) h = Some None"
    using cancelled_reply_sets_undefined [of s t q h r E] by blast
next
  assume "isProxy ai \<and> attempt ai = 1 \<and> sessionCredentials s (authInfoHash E ai) = Some None \<and>
    pendingProxyResolves s (authInfoHash E ai) = None \<and>
    promises s (PDoResolve (Suc (nextPromise s))) = Pending \<and>
    promises s (PResolve (nextPromise s)) = Pending"
  then show "trace (run E s [Login ai cb, Run (nextTask s), Run (Suc (nextTask s))]) =
        trace s @ [Returned (nextCall s) (Rejected TypeError)]"
    using undefined_session_throws [of ai s E cb] by blast
next
  assume "isProxy ai \<and> attempt ai = 1"
  then show "sessionCredentials (run E (initial Map.empty True) (cancelRun ai)) (authInfoHash E ai) =
        Some None"
    by (simp add: cancelRun_state)
next
  assume a: "isProxy ai \<and> attempt ai = 1"
  let ?s = "run E (initial Map.empty True) (cancelRun ai)"
  from a have "trace (run E ?s [Login ai cb, Run (nextTask ?s), Run (Suc (nextTask ?s))]) =
        trace ?s @ [Returned (nextCall ?s) (Rejected TypeError)]"
    by (intro undefined_session_throws) (simp_all add: cancelRun_state)
  with a show "trace (run E (initial Map.empty True) (cancelRun ai @ [Login ai cb, Run 5, Run 6])) =
        [StorageGet (storageKey (authInfoHash E ai)),
         OpenDialog 0 ai (authInfoHash E ai) None None,
         Callback 0 None None, Returned 0 (Fulfilled None),
         Returned 1 (Rejected TypeError)]"
    by (simp add: run_append cancelRun_state)
qed

text \<open>The theorem at the example proxy, the second call from \<open>lookupAuthorization\<close>.\<close>

theorem undefined_session_entry_throws_witness:
  "isProxy (proxyChallenge 1) \<and> attempt (proxyChallenge 1) = 1 \<and>
   sessionCredentials userCancelled ''basic:proxy.example'' = Some None \<and>
   trace (run exampleEnv (initial Map.empty True)
            (cancelRun (proxyChallenge 1) @ [Login (proxyChallenge 1) False, Run 5, Run 6])) =
     [StorageGet ''proxy-credentials://basic:proxy.example'',
      OpenDialog 0 (proxyChallenge 1) ''basic:proxy.example'' None None,
      Callback 0 None None, Returned 0 (Fulfilled None),
      Returned 1 (Rejected TypeError)]"
proof -
  have a: "isProxy (proxyChallenge 1) \<and> attempt (proxyChallenge 1) = 1"
    by (simp add: proxyChallenge_def)
  have h: "authInfoHash exampleEnv (proxyChallenge 1) = ''basic:proxy.example''"
    "storageKey ''basic:proxy.example'' = ''proxy-credentials://basic:proxy.example''"
    by (simp_all add: example_defs)
  from undefined_session_entry_throws [where ai = "proxyChallenge 1" and E = exampleEnv
      and cb = False, THEN conjunct2, THEN conjunct2] a
  show ?thesis by (simp add: h userCancelled_eq)
qed

text \<open>C4, evaluated where the code fails it: after the cancelled prompt of the
  example, the next challenge with attempt 1 for the same proxy ends with a
  rejected promise, and the callback of the \<open>login\<close> event is never called.\<close>

theorem resolve_throws_after_cancel:
  "trace (run exampleEnv userCancelled [Login (proxyChallenge 1) True, Run 5, Run 6]) =
     trace userCancelled @ [Returned 1 (Rejected TypeError)]"
proof -
  have p: "isProxy (proxyChallenge 1)" "attempt (proxyChallenge 1) = 1"
    by (simp_all add: proxyChallenge_def)
  note st = cancelRun_state [OF p, of exampleEnv, folded userCancelled_eq]
  from undefined_session_throws [of "proxyChallenge 1" userCancelled exampleEnv True] p st
  show ?thesis by simp
qed

subsection \<open>Allocation of tasks and promises\<close>

lemma settle_alt:
  "settle p v s = s\<lparr>promises := (promises s)(p := if promises s p = Pending then v else promises s p)\<rparr>"
  by (simp add: settle_def)

lemma freshD:
  "fresh s \<Longrightarrow> nextTask s \<le> t \<Longrightarrow> tasks s t = None"
  "fresh s \<Longrightarrow> nextPromise s \<le> promiseId k \<Longrightarrow> promises s k = Pending"
  "fresh s \<Longrightarrow> tasks s t = Some f \<Longrightarrow> i \<in> set (frameIds f) \<Longrightarrow> i < nextPromise s"
  "fresh s \<Longrightarrow> handlers s ch = Some (h, q) \<Longrightarrow> q < nextPromise s"
  "fresh s \<Longrightarrow> currentDialog s = Some cd \<Longrightarrow> cd < nextPromise s"
  "fresh s \<Longrightarrow> pendingProxyResolves s h' = Some p \<Longrightarrow> p < nextPromise s"
  by (auto simp: fresh_def)

lemma fresh_fields [simp]:
  "fresh (s\<lparr>trace := tr\<rparr>) = fresh s"
  "fresh (s\<lparr>sessionCredentials := sc\<rparr>) = fresh s"
  "fresh (s\<lparr>cancelledAuthInfoHashes := ca\<rparr>) = fresh s"
  "fresh (s\<lparr>storage := st\<rparr>) = fresh s"
  "fresh (s\<lparr>storageFails := b\<rparr>) = fresh s"
  "fresh (s\<lparr>hasWindow := b\<rparr>) = fresh s"
  "fresh (s\<lparr>nextChannel := n\<rparr>) = fresh s"
  "fresh (s\<lparr>nextCall := n\<rparr>) = fresh s"
  by (simp_all add: fresh_def)

lemma fresh_emit [simp]: "fresh (emit e s) = fresh s"
  by (simp add: emit_def)

lemma fresh_storage [simp]:
  "fresh (storageStore k v s) = fresh s" "fresh (storageRemove k s) = fresh s"
  by (simp_all add: storageStore_def storageRemove_def)

lemma fresh_allocPromise: "fresh s \<Longrightarrow> fresh (allocPromise s)"
  by (fastforce simp: fresh_def allocPromise_def)

lemma fresh_settle: "fresh s \<Longrightarrow> promiseId p < nextPromise s \<Longrightarrow> fresh (settle p v s)"
  by (auto simp: fresh_def settle_def)

lemma fresh_suspend:
  "fresh s \<Longrightarrow> \<forall>i \<in> set (frameIds f). i < nextPromise s \<Longrightarrow> fresh (suspend f s)"
  by (auto simp: fresh_def suspend_def)

lemma fresh_finish: "fresh s \<Longrightarrow> fresh (finish t s)"
  by (auto simp: fresh_def finish_def)

lemma fresh_continue:
  "fresh s \<Longrightarrow> tasks s t \<noteq> None \<Longrightarrow> \<forall>i \<in> set (frameIds f). i < nextPromise s \<Longrightarrow>
   fresh (continue t f s)"
  by (auto simp: fresh_def continue_def)

lemma fresh_currentDialog:
  "fresh s \<Longrightarrow> (\<forall>cd. c = Some cd \<longrightarrow> cd < nextPromise s) \<Longrightarrow> fresh (s\<lparr>currentDialog := c\<rparr>)"
  by (auto simp: fresh_def)

lemma fresh_handlers:
  "fresh s \<Longrightarrow> (\<forall>ch h q. m ch = Some (h, q) \<longrightarrow> q < nextPromise s) \<Longrightarrow>
   fresh (s\<lparr>handlers := m\<rparr>)"
  by (auto simp: fresh_def)

lemma fresh_pending:
  "fresh s \<Longrightarrow> (\<forall>h p. m h = Some p \<longrightarrow> p < nextPromise s) \<Longrightarrow>
   fresh (s\<lparr>pendingProxyResolves := m\<rparr>)"
  by (auto simp: fresh_def)

lemmas fresh_intros = fresh_allocPromise fresh_settle fresh_suspend fresh_finish fresh_continue
  fresh_currentDialog fresh_handlers fresh_pending

lemma prim_fields [simp]:
  "pendingProxyResolves (allocPromise s) = pendingProxyResolves s"
  "currentDialog (allocPromise s) = currentDialog s"
  "cancelledAuthInfoHashes (allocPromise s) = cancelledAuthInfoHashes s"
  "sessionCredentials (allocPromise s) = sessionCredentials s"
  "storage (allocPromise s) = storage s"
  "storageFails (allocPromise s) = storageFails s"
  "hasWindow (allocPromise s) = hasWindow s"
  "handlers (allocPromise s) = handlers s"
  "nextChannel (allocPromise s) = nextChannel s"
  "promises (allocPromise s) = promises s"
  "nextPromise (allocPromise s) = Suc (nextPromise s)"
  "tasks (allocPromise s) = tasks s"
  "nextTask (allocPromise s) = nextTask s"
  "nextCall (allocPromise s) = nextCall s"
  "trace (allocPromise s) = trace s"
  "pendingProxyResolves (settle p v s) = pendingProxyResolves s"
  "currentDialog (settle p v s) = currentDialog s"
  "cancelledAuthInfoHashes (settle p v s) = cancelledAuthInfoHashes s"
  "sessionCredentials (settle p v s) = sessionCredentials s"
  "storage (settle p v s) = storage s"
  "storageFails (settle p v s) = storageFails s"
  "hasWindow (settle p v s) = hasWindow s"
  "handlers (settle p v s) = handlers s"
  "nextChannel (settle p v s) = nextChannel s"
  "promises (settle p v s) = (promises s)(p := if promises s p = Pending then v else promises s p)"
  "nextPromise (settle p v s) = nextPromise s"
  "tasks (settle p v s) = tasks s"
  "nextTask (settle p v s) = nextTask s"
  "nextCall (settle p v s) = nextCall s"
  "trace (settle p v s) = trace s"
  "pendingProxyResolves (suspend f s) = pendingProxyResolves s"
  "currentDialog (suspend f s) = currentDialog s"
  "cancelledAuthInfoHashes (suspend f s) = cancelledAuthInfoHashes s"
  "sessionCredentials (suspend f s) = sessionCredentials s"
  "storage (suspend f s) = storage s"
  "storageFails (suspend f s) = storageFails s"
  "hasWindow (suspend f s) = hasWindow s"
  "handlers (suspend f s) = handlers s"
  "nextChannel (suspend f s) = nextChannel s"
  "promises (suspend f s) = promises s"
  "nextPromise (suspend f s) = nextPromise s"
  "tasks (suspend f s) = (tasks s)(nextTask s \<mapsto> f)"
  "nextTask (suspend f s) = Suc (nextTask s)"
  "nextCall (suspend f s) = nextCall s"
  "trace (suspend f s) = trace s"
  "pendingProxyResolves (finish t s) = pendingProxyResolves s"
  "currentDialog (finish t s) = currentDialog s"
  "cancelledAuthInfoHashes (finish t s) = cancelledAuthInfoHashes s"
  "sessionCredentials (finish t s) = sessionCredentials s"
  "storage (finish t s) = storage s"
  "storageFails (finish t s) = storageFails s"
  "hasWindow (finish t s) = hasWindow s"
  "handlers (finish t s) = handlers s"
  "nextChannel (finish t s) = nextChannel s"
  "promises (finish t s) = promises s"
  "nextPromise (finish t s) = nextPromise s"
  "tasks (finish t s) = (tasks s)(t := None)"
  "nextTask (finish t s) = nextTask s"
  "nextCall (finish t s) = nextCall s"
  "trace (finish t s) = trace s"
  "pendingProxyResolves (continue t f s) = pendingProxyResolves s"
  "currentDialog (continue t f s) = currentDialog s"
  "cancelledAuthInfoHashes (continue t f s) = cancelledAuthInfoHashes s"
  "sessionCredentials (continue t f s) = sessionCredentials s"
  "storage (continue t f s) = storage s"
  "storageFails (continue t f s) = storageFails s"
  "hasWindow (continue t f s) = hasWindow s"
  "handlers (continue t f s) = handlers s"
  "nextChannel (continue t f s) = nextChannel s"
  "promises (continue t f s) = promises s"
  "nextPromise (continue t f s) = nextPromise s"
  "tasks (continue t f s) = (tasks s)(t \<mapsto> f)"
  "nextTask (continue t f s) = nextTask s"
  "nextCall (continue t f s) = nextCall s"
  "trace (continue t f s) = trace s"
  "pendingProxyResolves (emit e s) = pendingProxyResolves s"
  "currentDialog (emit e s) = currentDialog s"
  "cancelledAuthInfoHashes (emit e s) = cancelledAuthInfoHashes s"
  "sessionCredentials (emit e s) = sessionCredentials s"
  "storage (emit e s) = storage s"
  "storageFails (emit e s) = storageFails s"
  "hasWindow (emit e s) = hasWindow s"
  "handlers (emit e s) = handlers s"
  "nextChannel (emit e s) = nextChannel s"
  "promises (emit e s) = promises s"
  "nextPromise (emit e s) = nextPromise s"
  "tasks (emit e s) = tasks s"
  "nextTask (emit e s) = nextTask s"
  "nextCall (emit e s) = nextCall s"
  "trace (emit e s) = trace s @ [e]"
  "pendingProxyResolves (storageStore k x s) = pendingProxyResolves s"
  "currentDialog (storageStore k x s) = currentDialog s"
  "cancelledAuthInfoHashes (storageStore k x s) = cancelledAuthInfoHashes s"
  "sessionCredentials (storageStore k x s) = sessionCredentials s"
  "storage (storageStore k x s) = (if storageFails s then storage s else (storage s)(k \<mapsto> x))"
  "storageFails (storageStore k x s) = storageFails s"
  "hasWindow (storageStore k x s) = hasWindow s"
  "handlers (storageStore k x s) = handlers s"
  "nextChannel (storageStore k x s) = nextChannel s"
  "promises (storageStore k x s) = promises s"
  "nextPromise (storageStore k x s) = nextPromise s"
  "tasks (storageStore k x s) = tasks s"
  "nextTask (storageStore k x s) = nextTask s"
  "nextCall (storageStore k x s) = nextCall s"
  "trace (storageStore k x s) = trace s @ [if storageFails s then LogError StorageError else StorageStore k x]"
  "pendingProxyResolves (storageRemove k s) = pendingProxyResolves s"
  "currentDialog (storageRemove k s) = currentDialog s"
  "cancelledAuthInfoHashes (storageRemove k s) = cancelledAuthInfoHashes s"
  "sessionCredentials (storageRemove k s) = sessionCredentials s"
  "storage (storageRemove k s) = (if storageFails s then storage s else (storage s)(k := None))"
  "storageFails (storageRemove k s) = storageFails s"
  "hasWindow (storageRemove k s) = hasWindow s"
  "handlers (storageRemove k s) = handlers s"
  "nextChannel (storageRemove k s) = nextChannel s"
  "promises (storageRemove k s) = promises s"
  "nextPromise (storageRemove k s) = nextPromise s"
  "tasks (storageRemove k s) = tasks s"
  "nextTask (storageRemove k s) = nextTask s"
  "nextCall (storageRemove k s) = nextCall s"
  "trace (storageRemove k s) = trace s @ [if storageFails s then LogError StorageError else StorageRemove k]"
  by (simp_all add: prim_defs)

lemma fresh_resumeOnLogin:
  "fresh s \<Longrightarrow> fresh (resumeOnLoginNew t c h p cb s)"
  "fresh s \<Longrightarrow> fresh (resumeOnLoginJoin t c p cb s)"
  by (auto simp: resumeOnLoginNew_def resumeOnLoginJoin_def finishOnLogin_def
        intro!: fresh_intros dest: freshD(6) split: outcome.splits if_splits)

lemma fresh_resumeResolve:
  "fresh s \<Longrightarrow> tasks s t = Some (Resolve d p) \<Longrightarrow> fresh (resumeResolve t d p s)"
  by (auto simp: resumeResolve_def intro!: fresh_intros dest: freshD(3) split: outcome.splits option.splits)

lemma fresh_resumeDoResolveReturn:
  "fresh s \<Longrightarrow> tasks s t = Some (DoResolveReturn cd d) \<Longrightarrow> fresh (resumeDoResolveReturn t cd d s)"
  by (auto simp: resumeDoResolveReturn_def intro!: fresh_intros dest: freshD(3) split: outcome.splits)

lemma fresh_resumeShowReply:
  "fresh s \<Longrightarrow> tasks s t = Some (ShowReply q h r) \<Longrightarrow> fresh (resumeShowReply t q h r s)"
  by (auto simp: resumeShowReply_def intro!: fresh_intros dest: freshD(3) split: outcome.splits)

lemma fresh_resumeDialogShow:
  "fresh s \<Longrightarrow> tasks s t = Some (DialogShow r cd) \<Longrightarrow> fresh (resumeDialogShow t r cd s)"
  by (auto simp: resumeDialogShow_def Let_def intro!: fresh_intros dest: freshD(3) split: outcome.splits)

lemma fresh_resumeHandlerEncrypt:
  "fresh s \<Longrightarrow> tasks s t = Some (HandlerEncrypt h c q) \<Longrightarrow> fresh (resumeHandlerEncrypt t h c q enc s)"
  by (auto simp: resumeHandlerEncrypt_def Let_def intro!: fresh_intros dest: freshD(3) split: option.splits)

lemma fresh_handler:
  "fresh s \<Longrightarrow> fresh (proxyAuthResponseHandler E ch reply s)"
  by (auto simp: proxyAuthResponseHandler_def Let_def intro!: fresh_intros
      split: option.splits prod.splits if_splits; blast dest: freshD)


lemma fresh_resumeDialogWait:
  "fresh s \<Longrightarrow> tasks s t = Some (DialogWait pd ai h su sp cd) \<Longrightarrow>
   fresh (resumeDialogWait t pd ai h su sp cd s)"
  by (auto simp: resumeDialogWait_def showProxyCredentialsDialog_def Let_def
      intro!: fresh_intros dest: freshD(3) split: outcome.splits option.splits if_splits;
      blast dest: freshD less_SucI)

lemma fresh_doResolveAfterLookup:
  "fresh s \<Longrightarrow> d < nextPromise s \<Longrightarrow> fresh (doResolveAfterLookup ai h su sp d s)"
  by (auto simp: doResolveAfterLookup_def Let_def
      intro!: fresh_intros split: option.splits if_splits; metis freshD(5) less_SucI)

lemma nextPromise_doResolveAfterLookup:
  "nextPromise s \<le> nextPromise (doResolveAfterLookup ai h su sp d s)"
  by (simp add: doResolveAfterLookup_def Let_def split: option.splits)

lemma fresh_resumeDoResolveDecrypt:
  "fresh s \<Longrightarrow> tasks s t = Some (DoResolveDecrypt ai h d) \<Longrightarrow>
   fresh (resumeDoResolveDecrypt E t ai h d x s)"
  by (auto simp: resumeDoResolveDecrypt_def intro!: fresh_doResolveAfterLookup fresh_intros
      dest: freshD(3) split: sum.splits prod.splits)

lemma doResolve_fst [simp]: "fst (doResolveProxyCredentials E ai h s) = nextPromise s"
  by (simp add: doResolveProxyCredentials_def Let_def split: option.splits)

lemma doResolve_nextPromise:
  "nextPromise s < nextPromise (snd (doResolveProxyCredentials E ai h s))"
  by (simp add: doResolveProxyCredentials_def doResolveAfterLookup_def Let_def
      split: option.splits)

lemma fresh_doResolve:
  "fresh s \<Longrightarrow> fresh (snd (doResolveProxyCredentials E ai h s))"
  by (auto simp: doResolveProxyCredentials_def Let_def
      intro!: fresh_doResolveAfterLookup fresh_intros split: option.splits)


lemma fresh_onLogin:
  assumes "fresh s"
  shows "fresh (onLogin E ai cb s)"
proof (cases "isProxy ai")
  case False
  with assms show ?thesis by (simp add: onLogin_def Let_def)
next
  case True
  let ?h = "authInfoHash E ai"
  let ?s0 = "s\<lparr>nextCall := Suc (nextCall s)\<rparr>"
  show ?thesis
  proof (cases "pendingProxyResolves s ?h")
    case (Some p)
    with assms True show ?thesis
      by (auto simp: onLogin_def Let_def intro!: fresh_suspend dest: freshD(6))
  next
    case None
    let ?s1 = "allocPromise ?s0"
    let ?s2 = "snd (doResolveProxyCredentials E ai ?h ?s1)"
    let ?s3 = "suspend (Resolve (Suc (nextPromise s)) (nextPromise s)) ?s2"
    have f2: "fresh ?s2"
      using assms by (intro fresh_doResolve fresh_allocPromise) simp
    have lt: "Suc (nextPromise s) < nextPromise ?s2"
      using doResolve_nextPromise [of ?s1 E ai ?h] by simp
    have f3: "fresh ?s3"
      using f2 lt by (intro fresh_suspend) simp_all
    have f4: "fresh (?s3\<lparr>pendingProxyResolves := (pendingProxyResolves ?s3)(?h \<mapsto> nextPromise s)\<rparr>)"
      using f3 lt by (intro fresh_pending) (auto dest: freshD(6) [OF f2])
    have "onLogin E ai cb s =
        suspend (OnLoginNew (nextCall s) ?h (nextPromise s) cb)
          (?s3\<lparr>pendingProxyResolves := (pendingProxyResolves ?s3)(?h \<mapsto> nextPromise s)\<rparr>)"
      using True None
      by (simp add: onLogin_def resolveProxyCredentials_def Let_def split_beta)
    with f4 lt show ?thesis
      by (auto intro!: fresh_suspend)
  qed
qed

lemma fresh_resume: "fresh s \<Longrightarrow> tasks s t = Some f \<Longrightarrow> fresh (resume t f s)"
  by (cases f)
    (simp_all add: fresh_resumeOnLogin fresh_resumeResolve fresh_resumeDoResolveReturn
      fresh_resumeDialogWait fresh_resumeDialogShow fresh_resumeShowReply)

lemma fresh_step: "fresh s \<Longrightarrow> fresh (step E s e)"
  by (cases e)
    (auto simp: fresh_onLogin fresh_resume fresh_resumeDoResolveDecrypt fresh_resumeHandlerEncrypt
      fresh_handler split: option.splits frame.splits)


lemma fresh_run: "fresh s \<Longrightarrow> fresh (run E s es)"
  unfolding run_def by (induction es arbitrary: s) (simp_all add: fresh_step)

subsection \<open>Single flight\<close>

lemma keep_upd [simp]: "keep K (T(t \<mapsto> f)) = (keep K T)(t := if K f then Some f else None)"
  by (auto simp: keep_def)

lemma keep_del [simp]: "keep K (T(t := None)) = (keep K T)(t := None)"
  by (auto simp: keep_def)

lemma keep_apply: "keep K T t = (case T t of None \<Rightarrow> None | Some f \<Rightarrow> if K f then Some f else None)"
  by (simp add: keep_def)

lemma keep_idem [simp]:
  "T t = None \<Longrightarrow> (keep K T)(t := None) = keep K T"
  "T t = Some f \<Longrightarrow> \<not> K f \<Longrightarrow> (keep K T)(t := None) = keep K T"
  by (auto simp: keep_def)

lemma keep_empty [simp]: "keep K Map.empty = Map.empty"
  by (simp add: keep_def)

lemma fresh_task [simp]: "fresh s \<Longrightarrow> nextTask s \<le> t \<Longrightarrow> tasks s t = None"
  by (simp add: freshD)




lemma finishOnLogin_fields [simp]:
  "pendingProxyResolves (finishOnLogin c cb v s) = pendingProxyResolves s"
  "currentDialog (finishOnLogin c cb v s) = currentDialog s"
  "cancelledAuthInfoHashes (finishOnLogin c cb v s) = cancelledAuthInfoHashes s"
  "sessionCredentials (finishOnLogin c cb v s) = sessionCredentials s"
  "storage (finishOnLogin c cb v s) = storage s"
  "storageFails (finishOnLogin c cb v s) = storageFails s"
  "hasWindow (finishOnLogin c cb v s) = hasWindow s"
  "handlers (finishOnLogin c cb v s) = handlers s"
  "nextChannel (finishOnLogin c cb v s) = nextChannel s"
  "promises (finishOnLogin c cb v s) = promises s"
  "nextPromise (finishOnLogin c cb v s) = nextPromise s"
  "tasks (finishOnLogin c cb v s) = tasks s"
  "nextTask (finishOnLogin c cb v s) = nextTask s"
  "nextCall (finishOnLogin c cb v s) = nextCall s"
  by (simp_all add: finishOnLogin_def split: outcome.splits)










lemma sf_fields [simp]:
  "singleFlightInv (s\<lparr>hasWindow := b\<rparr>) = singleFlightInv s"
  "singleFlightInv (s\<lparr>storageFails := b\<rparr>) = singleFlightInv s"
  by (simp_all add: singleFlightInv_def)









lemma settledKept_refl [simp]: "settledKept s s"
  by (simp add: settledKept_def)


lemma settledKept_same: "promises s' = promises s \<Longrightarrow> settledKept s s'"
  by (simp add: settledKept_def)

lemma settledKept_settle: "settledKept s s' \<Longrightarrow> settledKept s (settle p v s')"
  by (auto simp: settledKept_def)


lemma settledKept_doResolveAfterLookup: "settledKept s (doResolveAfterLookup ai h su sp d s)"
  by (auto simp: settledKept_def doResolveAfterLookup_def Let_def split: option.splits)









subsection \<open>Cancelled hashes\<close>

lemma sc_resume:
  "h \<in> cancelledAuthInfoHashes s \<Longrightarrow> staysCancelled h s (resume t f s)"
  by (cases f)
    (auto simp: staysCancelled_def promptsFor_def resumeOnLoginNew_def resumeOnLoginJoin_def
      finishOnLogin_def resumeResolve_def
      resumeDoResolveReturn_def resumeDialogWait_def showProxyCredentialsDialog_def
      resumeDialogShow_def resumeShowReply_def Let_def
      split: outcome.splits option.splits)

lemma sc_doResolve:
  "h \<in> cancelledAuthInfoHashes s \<Longrightarrow> staysCancelled h s (snd (doResolveProxyCredentials E ai h' s))"
  by (auto simp: staysCancelled_def promptsFor_def doResolveProxyCredentials_def
      doResolveAfterLookup_def Let_def split: option.splits)

lemma sc_onLogin:
  "h \<in> cancelledAuthInfoHashes s \<Longrightarrow> staysCancelled h s (onLogin E ai cb s)"
  using sc_doResolve [of h "allocPromise (s\<lparr>nextCall := Suc (nextCall s)\<rparr>)" E ai "authInfoHash E ai"]
  by (auto simp: staysCancelled_def promptsFor_def onLogin_def resolveProxyCredentials_def
      Let_def split_beta split: option.splits)

lemma sc_other:
  assumes "h \<in> cancelledAuthInfoHashes s"
  shows "staysCancelled h s (resumeDoResolveDecrypt E t ai h' d x s)"
    "staysCancelled h s (resumeHandlerEncrypt t h' c q enc s)"
    "staysCancelled h s (proxyAuthResponseHandler E ch reply s)"
    "staysCancelled h s (s\<lparr>hasWindow := b\<rparr>)"
    "staysCancelled h s (s\<lparr>storageFails := b\<rparr>)"
  using assms
  by (auto simp: staysCancelled_def promptsFor_def resumeDoResolveDecrypt_def
        doResolveAfterLookup_def resumeHandlerEncrypt_def proxyAuthResponseHandler_def Let_def
      split: option.splits sum.splits prod.splits)

lemma sc_refl: "h \<in> cancelledAuthInfoHashes s \<Longrightarrow> staysCancelled h s s"
  by (simp add: staysCancelled_def)

lemma sc_step: "h \<in> cancelledAuthInfoHashes s \<Longrightarrow> staysCancelled h s (step E s e)"
  by (cases e)
    (simp_all add: sc_onLogin sc_resume sc_other sc_refl
      split: option.splits frame.splits)

lemma sc_run: "h \<in> cancelledAuthInfoHashes s \<Longrightarrow> staysCancelled h s (run E s es)"
  unfolding run_def
proof (induction es arbitrary: s)
  case Nil
  then show ?case by (simp add: staysCancelled_def)
next
  case (Cons e es)
  from sc_step [OF Cons.prems, of E e] Cons.IH [of "step E s e"]
  show ?case by (simp add: staysCancelled_def)
qed

lemma cancelled_returns_undefined:
  assumes "tasks s t = Some (DialogWait pd ai h su sp cd)"
    "pd = None \<or> (\<exists>c v. pd = Some c \<and> promises s (PDialog c) = Fulfilled v)"
    "h \<in> cancelledAuthInfoHashes s" "promises s (PShow (nextPromise s)) = Pending"
  shows "step E s (Run t) =
           s\<lparr>nextPromise := Suc (nextPromise s),
             promises := (promises s)(PShow (nextPromise s) := Fulfilled None),
             tasks := (tasks s)(t \<mapsto> DialogShow (nextPromise s) cd)\<rparr>"
  using assms
  by (auto simp: resumeDialogWait_def showProxyCredentialsDialog_def prim_defs Let_def)

text \<open>C2, amended. A hash in \<open>cancelledAuthInfoHashes\<close> stays there, and from then on
  no prompt is opened for it: the prompts for the hash in the trace of any later
  state are those already there. A resolution for the hash that reaches
  \<open>showProxyCredentialsDialog\<close> returns \<open>undefined\<close> at its first test (lines 182 to
  186), changing nothing but the promise it returns. (The test comes after the
  session test of line 138 and the storage read of lines 145 to 157, which a call
  for a cancelled hash still makes.)\<close>

theorem cancelled_never_prompts:
  "(h \<in> cancelledAuthInfoHashes s \<longrightarrow>
      h \<in> cancelledAuthInfoHashes (run E s es) \<and>
      filter (promptFor h) (trace (run E s es)) = filter (promptFor h) (trace s)) \<and>
   (tasks s t = Some (DialogWait pd ai h su sp cd) \<and>
    (pd = None \<or> (\<exists>c v. pd = Some c \<and> promises s (PDialog c) = Fulfilled v)) \<and>
    h \<in> cancelledAuthInfoHashes s \<and> promises s (PShow (nextPromise s)) = Pending \<longrightarrow>
      step E s (Run t) =
        s\<lparr>nextPromise := Suc (nextPromise s),
          promises := (promises s)(PShow (nextPromise s) := Fulfilled None),
          tasks := (tasks s)(t \<mapsto> DialogShow (nextPromise s) cd)\<rparr>)"
  using sc_run [of h s E es] cancelled_returns_undefined [of s t pd ai h su sp cd E]
  unfolding staysCancelled_def promptsFor_def by blast

subsection \<open>Two callers for one proxy\<close>


subsection \<open>After a cancelled prompt\<close>

lemma retry_cancelled_run:
  assumes "isProxy ai" "attempt ai \<noteq> 1"
    "pendingProxyResolves s (authInfoHash E ai) = None"
    "authInfoHash E ai \<in> cancelledAuthInfoHashes s"
    "\<not> storageFails s" "storage s (storageKey (authInfoHash E ai)) = None"
    "currentDialog s = None"
    "promises s (PResolve (nextPromise s)) = Pending"
    "promises s (PDoResolve (Suc (nextPromise s))) = Pending"
    "promises s (PDialog (Suc (Suc (nextPromise s)))) = Pending"
    "promises s (PShow (Suc (Suc (Suc (nextPromise s))))) = Pending"
  shows "trace (run E s [Login ai True, Run (nextTask s), Run (nextTask s), Run (Suc (nextTask s)),
           Run (Suc (Suc (nextTask s))), Run (Suc (Suc (Suc (nextTask s))))]) =
         trace s @ [StorageGet (storageKey (authInfoHash E ai)), Callback (nextCall s) None None,
            Returned (nextCall s) (Fulfilled None)]"
  using assms
  by (simp add: run_def model_defs Let_def)


text \<open>C2, as stated, fails. After the cancelled prompt of the example the hash is in
  \<open>cancelledAuthInfoHashes\<close>; a challenge with attempt 2 for the same proxy reads the
  persistent store again before it returns no credentials, and a challenge with
  attempt 1 does not return no credentials: it consults the session credentials and
  its promise is rejected.\<close>

theorem cancelled_reconsults_counterexample:
  "''basic:proxy.example'' \<in> cancelledAuthInfoHashes userCancelled \<and>
   trace (run exampleEnv userCancelled (retryAfterCancel (proxyChallenge 2))) =
     trace userCancelled @
     [StorageGet ''proxy-credentials://basic:proxy.example'', Callback 1 None None,
      Returned 1 (Fulfilled None)] \<and>
   trace (run exampleEnv userCancelled [Login (proxyChallenge 1) False, Run 5, Run 6]) =
     trace userCancelled @ [Returned 1 (Rejected TypeError)]"
proof -
  have p: "isProxy (proxyChallenge 1)" "attempt (proxyChallenge 1) = 1"
    by (simp_all add: proxyChallenge_def)
  note st = cancelRun_state [OF p, of exampleEnv, folded userCancelled_eq]
  have a: "''basic:proxy.example'' \<in> cancelledAuthInfoHashes userCancelled"
    using st(2) by (simp add: example_hash)
  have b: "trace (run exampleEnv userCancelled (retryAfterCancel (proxyChallenge 2))) =
     trace userCancelled @
     [StorageGet ''proxy-credentials://basic:proxy.example'', Callback 1 None None,
      Returned 1 (Fulfilled None)]"
    using retry_cancelled_run [of "proxyChallenge 2" userCancelled exampleEnv] st
    by (simp add: retryAfterCancel_def example_hash numeral_eq_Suc)
  have c: "trace (run exampleEnv userCancelled [Login (proxyChallenge 1) False, Run 5, Run 6]) =
     trace userCancelled @ [Returned 1 (Rejected TypeError)]"
    using undefined_session_throws [of "proxyChallenge 1" userCancelled exampleEnv False] p st
    by simp
  from a b c show ?thesis by simp
qed

text \<open>The amended theorem at the example: the hash stays cancelled through the second
  attempt, and the only prompt for it in the trace is the one the user cancelled.\<close>

theorem cancelled_never_prompts_witness:
  "''basic:proxy.example'' \<in> cancelledAuthInfoHashes userCancelled \<and>
   ''basic:proxy.example'' \<in>
     cancelledAuthInfoHashes (run exampleEnv userCancelled (retryAfterCancel (proxyChallenge 2))) \<and>
   filter (promptFor ''basic:proxy.example'')
     (trace (run exampleEnv userCancelled (retryAfterCancel (proxyChallenge 2)))) =
     [OpenDialog 0 (proxyChallenge 1) ''basic:proxy.example'' None None]"
proof -
  have p: "isProxy (proxyChallenge 1)" "attempt (proxyChallenge 1) = 1"
    by (simp_all add: proxyChallenge_def)
  note st = cancelRun_state [OF p, of exampleEnv, folded userCancelled_eq]
  have a: "''basic:proxy.example'' \<in> cancelledAuthInfoHashes userCancelled"
    using st(2) by (simp add: example_hash)
  from cancelled_never_prompts [where h = "''basic:proxy.example''" and s = userCancelled
      and E = exampleEnv and es = "retryAfterCancel (proxyChallenge 2)", THEN conjunct1] a st(4)
  show ?thesis by (simp add: example_hash)
qed

subsection \<open>The dialog queue\<close>

lemma waiting_cong:
  "waiting F PD np c ts e \<Longrightarrow> (\<And>t. t \<in> set ts \<Longrightarrow> F' t = F t) \<Longrightarrow>
   (\<And>x. c < x \<Longrightarrow> PD' x = PD x) \<Longrightarrow> np \<le> np' \<Longrightarrow> waiting F' PD' np' c ts e"
proof (induction ts arbitrary: c)
  case Nil
  then show ?case by simp
next
  case (Cons t ts)
  from Cons.prems(1) obtain ai h su sp cd where
    f: "F t = Some (DialogWait (Some c) ai h su sp cd)" and lt: "c < cd" "cd < np"
    and pd: "PD cd = Pending" and w: "waiting F PD np cd ts e"
    by auto
  have "waiting F' PD' np' cd ts e"
    using w Cons.prems(2,3,4) lt by (intro Cons.IH) auto
  moreover have "F' t = Some (DialogWait (Some c) ai h su sp cd)"
    using f Cons.prems(2) by simp
  moreover have "PD' cd = Pending" using pd Cons.prems(3) lt by simp
  ultimately show ?case using lt Cons.prems(4) by auto
qed

lemma waiting_mem:
  "waiting F PD np c ts e \<Longrightarrow> PD c = Pending \<Longrightarrow> t \<in> set ts \<Longrightarrow>
   \<exists>c' ai h su sp cd. F t = Some (DialogWait (Some c') ai h su sp cd) \<and> PD c' = Pending \<and> c \<le> c'"
proof (induction ts arbitrary: c)
  case Nil
  then show ?case by simp
next
  case (Cons t' ts)
  from Cons.prems(1) obtain ai h su sp cd where
    f: "F t' = Some (DialogWait (Some c) ai h su sp cd)" and lt: "c < cd"
    and pd: "PD cd = Pending" and w: "waiting F PD np cd ts e"
    by auto
  show ?case
  proof (cases "t = t'")
    case True
    with f Cons.prems(2) show ?thesis by auto
  next
    case False
    with Cons.prems(3) have "t \<in> set ts" by simp
    from Cons.IH [OF w pd this] lt show ?thesis
      by (meson le_trans less_imp_le)
  qed
qed

lemma waiting_end:
  "waiting F PD np c ts e \<Longrightarrow> c \<le> e \<and> (c < np \<longrightarrow> e < np) \<and> (PD c = Pending \<longrightarrow> PD e = Pending)"
proof (induction ts arbitrary: c)
  case Nil
  then show ?case by simp
next
  case (Cons t ts)
  from Cons.prems obtain ai h su sp cd where
    lt: "c < cd" "cd < np" and pd: "PD cd = Pending" and w: "waiting F PD np cd ts e"
    by auto
  from Cons.IH [OF w] lt pd show ?case by auto
qed

lemma waiting_snoc:
  "waiting F PD np c ts e \<Longrightarrow> F n = None \<Longrightarrow> c < np \<Longrightarrow> PD np = Pending \<Longrightarrow>
   waiting (F(n \<mapsto> DialogWait (Some e) ai h su sp np)) PD (Suc np) c (ts @ [n]) np"
proof (induction ts arbitrary: c)
  case Nil
  then show ?case by simp
next
  case (Cons t ts)
  from Cons.prems(1) obtain ai' h' su' sp' cd where
    f: "F t = Some (DialogWait (Some c) ai' h' su' sp' cd)" and lt: "c < cd" "cd < np"
    and pd: "PD cd = Pending" and w: "waiting F PD np cd ts e"
    by auto
  from f Cons.prems(2) have "t \<noteq> n" by auto
  with f have "(F(n \<mapsto> DialogWait (Some e) ai h su sp np)) t = Some (DialogWait (Some c) ai' h' su' sp' cd)"
    by simp
  with Cons.IH [OF w Cons.prems(2) lt(2) Cons.prems(4)] lt pd show ?case
    by auto
qed

lemma chainI_cons:
  assumes "\<forall>t'. F t' \<noteq> None \<longleftrightarrow> t' \<in> set (t # rest)" "headOK F PD t cd" "cd < np"
    "PD cd = Pending" "waiting F PD np cd rest e" "cur = Some e"
  shows "chain F PD cur np (t # rest)"
  unfolding chain_def list.case using assms by blast

lemma chainI_nil:
  assumes "\<forall>t'. F t' = None" "cur = None"
  shows "chain F PD cur np []"
  unfolding chain_def list.case using assms by simp

lemma chainD_cons:
  assumes "chain F PD cur np (t # rest)"
  shows "\<exists>cd e. headOK F PD t cd \<and> cd < np \<and> PD cd = Pending \<and> waiting F PD np cd rest e \<and>
           cur = Some e"
    and "\<forall>t'. F t' \<noteq> None \<longleftrightarrow> t' \<in> set (t # rest)"
  using assms unfolding chain_def list.case by blast+

lemma chain_mono:
  assumes c: "chain F PD cur np ts" and le: "np \<le> np'"
  shows "chain F PD cur np' ts"
proof (cases ts)
  case Nil
  with c show ?thesis by (simp add: chain_def)
next
  case (Cons t rest)
  from c Cons obtain cd e where h: "headOK F PD t cd" and lt: "cd < np" and pd: "PD cd = Pending"
    and w: "waiting F PD np cd rest e" and cur: "cur = Some e"
    and mem: "\<forall>t'. F t' \<noteq> None \<longleftrightarrow> t' \<in> set ts"
    by (auto simp: chain_def)
  from waiting_cong [OF w _ _ le] have "waiting F PD np' cd rest e" by simp
  with h lt pd cur mem le Cons show ?thesis
    unfolding chain_def by (simp del: not_None_eq) (metis less_le_trans)
qed

lemma chain_enqueue:
  assumes c: "chain F PD cur np ts" and n: "F n = None" and p: "PD np = Pending"
  shows "chain (F(n \<mapsto> DialogWait cur ai h su sp np)) PD (Some np) (Suc np) (ts @ [n])"
proof (cases ts)
  case Nil
  with c have "cur = None" and "\<forall>t. F t = None" by (auto simp: chain_def)
  with Nil p show ?thesis by (auto simp: chain_def headOK_def)
next
  case (Cons t rest)
  let ?F = "F(n \<mapsto> DialogWait cur ai h su sp np)"
  from c Cons obtain cd e where h: "headOK F PD t cd" and lt: "cd < np" and pd: "PD cd = Pending"
    and w: "waiting F PD np cd rest e" and cur: "cur = Some e" and mem: "\<forall>t'. F t' \<noteq> None \<longleftrightarrow> t' \<in> set ts"
    by (auto simp: chain_def)
  from mem Cons have "F t \<noteq> None" by simp
  with n have tn: "t \<noteq> n" by auto
  with h have h': "headOK ?F PD t cd" by (simp add: headOK_def)
  from waiting_snoc [OF w n lt p] cur
  have w': "waiting ?F PD (Suc np) cd (rest @ [n]) np" by simp
  from mem have "\<forall>t'. ?F t' \<noteq> None \<longleftrightarrow> t' \<in> set (ts @ [n])" by auto
  with h' w' lt pd Cons show ?thesis by (auto simp: chain_def)
qed

lemma chain_head:
  assumes c: "chain F PD cur np ts" and f: "F t = Some f'"
    and r: "\<forall>c' ai h su sp cd. f' = DialogWait (Some c') ai h su sp cd \<longrightarrow> PD c' \<noteq> Pending"
  shows "\<exists>rest. ts = t # rest \<and> t \<notin> set rest"
proof (cases ts)
  case Nil
  with c f show ?thesis by (auto simp: chain_def)
next
  case (Cons t0 rest)
  from c Cons obtain cd e where h: "headOK F PD t0 cd" and pd: "PD cd = Pending"
    and w: "waiting F PD np cd rest e" and mem: "\<forall>t'. F t' \<noteq> None \<longleftrightarrow> t' \<in> set ts"
    by (auto simp: chain_def)
  have nr: "t \<notin> set rest"
  proof
    assume "t \<in> set rest"
    from waiting_mem [OF w pd this] f r show False by auto
  qed
  have n0: "t0 \<notin> set rest"
  proof
    assume "t0 \<in> set rest"
    from waiting_mem [OF w pd this] obtain c' ai h su sp cd' where
      "F t0 = Some (DialogWait (Some c') ai h su sp cd')" "PD c' = Pending" by blast
    with h show False by (auto simp: headOK_def)
  qed
  from mem f have "t \<in> set ts" by auto
  with Cons nr have "t = t0" by auto
  with Cons n0 show ?thesis by simp
qed


lemma chain_show:
  assumes c: "chain F PD cur np ts" and f: "F t = Some (DialogWait pd ai h su sp cd)"
    and r: "\<forall>c'. pd = Some c' \<longrightarrow> PD c' \<noteq> Pending" and le: "np \<le> np'"
  shows "chain (F(t \<mapsto> DialogShow r cd)) PD cur np' ts"
proof -
  let ?F = "F(t \<mapsto> DialogShow r cd)"
  have r': "\<forall>c' ai' h' su' sp' cd'.
      DialogWait pd ai h su sp cd = DialogWait (Some c') ai' h' su' sp' cd' \<longrightarrow> PD c' \<noteq> Pending"
    using r by simp
  from chain_head [OF c f r'] obtain rest where ts: "ts = t # rest" and nr: "t \<notin> set rest"
    by blast
  from chainD_cons [OF c [unfolded ts]] obtain cd0 e where
    h: "headOK F PD t cd0" and lt: "cd0 < np" and pd: "PD cd0 = Pending"
    and w: "waiting F PD np cd0 rest e" and cur: "cur = Some e"
    and mem: "\<forall>t'. F t' \<noteq> None \<longleftrightarrow> t' \<in> set (t # rest)"
    by blast
  from h f have cd0: "cd0 = cd" by (auto simp: headOK_def)
  have h': "headOK ?F PD t cd" by (simp add: headOK_def)
  have agree: "\<And>t'. t' \<in> set rest \<Longrightarrow> ?F t' = F t'" using nr by auto
  have w': "waiting ?F PD np' cd rest e"
    by (rule waiting_cong [where F = F and PD = PD and np = np])
      (use w agree le cd0 in simp_all)
  have mem': "\<forall>t'. ?F t' \<noteq> None \<longleftrightarrow> t' \<in> set (t # rest)"
    using mem by simp
  have "cd < np'" using lt le cd0 by simp
  from chainI_cons [OF mem' h' this _ w' cur] pd cd0 show ?thesis
    unfolding ts by simp
qed

lemma chain_finish:
  assumes c: "chain F PD cur np ts" and f: "F t = Some (DialogShow r cd)" and v: "v \<noteq> Pending"
  shows "chain (F(t := None)) (PD(cd := v)) (if cur = Some cd then None else cur) np (tl ts)"
proof -
  let ?F = "F(t := None)" and ?PD = "PD(cd := v)"
  have r': "\<forall>c' ai' h' su' sp' cd'.
      DialogShow r cd = DialogWait (Some c') ai' h' su' sp' cd' \<longrightarrow> PD c' \<noteq> Pending"
    by simp
  from chain_head [OF c f r'] obtain rest where ts: "ts = t # rest" and nr: "t \<notin> set rest"
    by blast
  from chainD_cons [OF c [unfolded ts]] obtain cd0 e where
    h: "headOK F PD t cd0" and lt: "cd0 < np" and pd: "PD cd0 = Pending"
    and w: "waiting F PD np cd0 rest e" and cur: "cur = Some e"
    and mem: "\<forall>t'. F t' \<noteq> None \<longleftrightarrow> t' \<in> set (t # rest)"
    by blast
  from h f have cd0: "cd0 = cd" by (auto simp: headOK_def)
  have mem': "\<forall>t'. ?F t' \<noteq> None \<longleftrightarrow> t' \<in> set rest"
  proof
    fix t'
    show "?F t' \<noteq> None \<longleftrightarrow> t' \<in> set rest"
      using mem [rule_format, of t'] nr by (cases "t' = t") simp_all
  qed
  show ?thesis
  proof (cases rest)
    case Nil
    with w cd0 cur have "cur = Some cd" by simp
    moreover from mem' Nil have "\<forall>t'. ?F t' = None" by simp
    ultimately show ?thesis unfolding ts using Nil by (simp add: chainI_nil)
  next
    case (Cons t2 rest2)
    from w Cons cd0 obtain ai h su sp cd2 where
      f2: "F t2 = Some (DialogWait (Some cd) ai h su sp cd2)" and lt2: "cd < cd2" "cd2 < np"
      and pd2: "PD cd2 = Pending" and w2: "waiting F PD np cd2 rest2 e"
      by auto
    from nr Cons have t2: "t2 \<noteq> t" by auto
    from waiting_end [OF w2] lt2 have "e \<noteq> cd" by auto
    with cur have cur': "(if cur = Some cd then None else cur) = Some e" by simp
    have h2: "headOK ?F ?PD t2 cd2"
      using f2 t2 lt2 v by (simp add: headOK_def)
    have agree: "\<And>t'. t' \<in> set rest2 \<Longrightarrow> ?F t' = F t'" using nr Cons by auto
    have pagree: "\<And>x. cd2 < x \<Longrightarrow> ?PD x = PD x" using lt2 by simp
    have w': "waiting ?F ?PD np cd2 rest2 e"
      by (rule waiting_cong [where F = F and PD = PD and np = np])
        (use w2 agree pagree in simp_all)
    have p2: "?PD cd2 = Pending" using pd2 lt2 by simp
    from chainI_cons [OF mem' [unfolded Cons] h2 lt2(2) p2 w' cur'] show ?thesis
      unfolding ts Cons by simp
  qed
qed

lemma dq_view:
  assumes "dialogQueue s ts"
    "keep isDialogFrame (tasks s') = keep isDialogFrame (tasks s)"
    "\<And>n. promises s' (PDialog n) = promises s (PDialog n)"
    "currentDialog s' = currentDialog s" "nextPromise s \<le> nextPromise s'"
  shows "dialogQueue s' ts"
  using chain_mono [OF assms(1) [unfolded dialogQueue_def] assms(5)] assms(2,3,4)
  by (simp add: dialogQueue_def)

lemma noReject_D:
  "noReject s \<Longrightarrow> promises s (PDialog n) \<noteq> Rejected e"
  "noReject s \<Longrightarrow> promises s (PShow n) \<noteq> Rejected e"
  "noReject s \<Longrightarrow> promises s (PReply n) \<noteq> Rejected e"
  by (simp_all add: noReject_def)

lemma noReject_resume: "noReject s \<Longrightarrow> noReject (resume t f s)"
  by (cases f)
    (auto simp: noReject_def resumeOnLoginNew_def resumeOnLoginJoin_def resumeResolve_def
      resumeDoResolveReturn_def resumeDialogWait_def showProxyCredentialsDialog_def
      resumeDialogShow_def resumeShowReply_def Let_def
      split: outcome.splits option.splits)

lemma noReject_doResolve: "noReject s \<Longrightarrow> noReject (snd (doResolveProxyCredentials E ai h s))"
  by (auto simp: noReject_def doResolveProxyCredentials_def doResolveAfterLookup_def Let_def
      split: option.splits)

lemma noReject_onLogin: "noReject s \<Longrightarrow> noReject (onLogin E ai cb s)"
  using noReject_doResolve [of "allocPromise (s\<lparr>nextCall := Suc (nextCall s)\<rparr>)" E ai "authInfoHash E ai"]
  by (auto simp: noReject_def onLogin_def resolveProxyCredentials_def Let_def split_beta
      split: option.splits)

lemma noReject_other:
  assumes "noReject s"
  shows "noReject (resumeDoResolveDecrypt E t ai h d x s)"
    "noReject (resumeHandlerEncrypt t h c q enc s)"
    "noReject (proxyAuthResponseHandler E ch reply s)"
    "noReject (s\<lparr>hasWindow := b\<rparr>)"
    "noReject (s\<lparr>storageFails := b\<rparr>)"
  using assms
  by (auto simp: noReject_def resumeDoResolveDecrypt_def doResolveAfterLookup_def
        resumeHandlerEncrypt_def proxyAuthResponseHandler_def Let_def
      split: option.splits sum.splits prod.splits)

lemma noReject_step: "noReject s \<Longrightarrow> noReject (step E s e)"
  by (cases e)
    (simp_all add: noReject_onLogin noReject_resume noReject_other
      split: option.splits frame.splits)

lemma PD_upd:
  "(\<lambda>n. ((promises s)(PDialog cd := x)) (PDialog n)) = (\<lambda>n. promises s (PDialog n))(cd := x)"
  by (rule ext) simp

lemma dq_plain:
  "dialogQueue s ts \<Longrightarrow> tasks s t = Some (OnLoginNew c h p cb) \<Longrightarrow>
   dialogQueue (resumeOnLoginNew t c h p cb s) ts"
  "dialogQueue s ts \<Longrightarrow> tasks s t = Some (OnLoginJoin c p cb) \<Longrightarrow>
   dialogQueue (resumeOnLoginJoin t c p cb s) ts"
  "dialogQueue s ts \<Longrightarrow> tasks s t = Some (Resolve d p) \<Longrightarrow>
   dialogQueue (resumeResolve t d p s) ts"
  "dialogQueue s ts \<Longrightarrow> tasks s t = Some (DoResolveReturn cd d) \<Longrightarrow>
   dialogQueue (resumeDoResolveReturn t cd d s) ts"
  "dialogQueue s ts \<Longrightarrow> tasks s t = Some (ShowReply q h r) \<Longrightarrow>
   dialogQueue (resumeShowReply t q h r s) ts"
  "dialogQueue s ts \<Longrightarrow> tasks s t = Some (HandlerEncrypt h cr q) \<Longrightarrow>
   dialogQueue (resumeHandlerEncrypt t h cr q enc s) ts"
  "dialogQueue s ts \<Longrightarrow> fresh s \<Longrightarrow> dialogQueue (proxyAuthResponseHandler E ch reply s) ts"
  "dialogQueue s ts \<Longrightarrow> dialogQueue (s\<lparr>hasWindow := b\<rparr>) ts"
  "dialogQueue s ts \<Longrightarrow> dialogQueue (s\<lparr>storageFails := b\<rparr>) ts"
  by (erule dq_view;
      simp add: resumeOnLoginNew_def resumeOnLoginJoin_def resumeResolve_def
         resumeDoResolveReturn_def resumeShowReply_def resumeHandlerEncrypt_def
         proxyAuthResponseHandler_def Let_def
         split: outcome.splits option.splits prod.splits)+

lemma show_view:
  assumes "fresh s"
  shows "fst (showProxyCredentialsDialog ai h su sp s) = nextPromise s"
    and "keep isDialogFrame (tasks (snd (showProxyCredentialsDialog ai h su sp s))) =
         keep isDialogFrame (tasks s)"
    and "promises (snd (showProxyCredentialsDialog ai h su sp s)) (PDialog n) = promises s (PDialog n)"
    and "currentDialog (snd (showProxyCredentialsDialog ai h su sp s)) = currentDialog s"
    and "nextPromise s \<le> nextPromise (snd (showProxyCredentialsDialog ai h su sp s))"
  using assms by (simp_all add: showProxyCredentialsDialog_def Let_def)

lemma dq_resumeDialogWait:
  assumes fr: "fresh s" and nr: "noReject s" and dq: "dialogQueue s ts"
    and t: "tasks s t = Some (DialogWait pd ai h su sp cd)"
  shows "dialogQueue (resumeDialogWait t pd ai h su sp cd s) ts"
proof (cases "case pd of None \<Rightarrow> Fulfilled None | Some c \<Rightarrow> promises s (PDialog c)")
  case Pending
  with dq show ?thesis by (simp add: resumeDialogWait_def)
next
  case (Rejected e)
  with nr have False by (auto simp: noReject_def split: option.splits)
  then show ?thesis ..
next
  case (Fulfilled v)
  let ?s1 = "snd (showProxyCredentialsDialog ai h su sp s)"
  have eq: "resumeDialogWait t pd ai h su sp cd s = continue t (DialogShow (nextPromise s) cd) ?s1"
    using Fulfilled show_view(1) [OF fr, of ai h su sp]
    by (simp add: resumeDialogWait_def split_beta)
  have k: "keep isDialogFrame (tasks s) t = Some (DialogWait pd ai h su sp cd)"
    using t by (simp add: keep_apply)
  have r: "\<forall>c'. pd = Some c' \<longrightarrow> promises s (PDialog c') \<noteq> Pending"
    using Fulfilled by auto
  from chain_show [OF dq [unfolded dialogQueue_def] k r show_view(5) [OF fr]]
  show ?thesis
    unfolding eq dialogQueue_def by (simp add: show_view [OF fr])
qed

lemma dq_resumeDialogShow:
  assumes nr: "noReject s" and dq: "dialogQueue s ts"
    and t: "tasks s t = Some (DialogShow r cd)"
  shows "\<exists>ts'. dialogQueue (resumeDialogShow t r cd s) ts'"
proof (cases "promises s (PShow r)")
  case Pending
  with dq show ?thesis by (auto simp: resumeDialogShow_def)
next
  case (Rejected e)
  with nr have False by (auto simp: noReject_def)
  then show ?thesis ..
next
  case (Fulfilled v)
  have k: "keep isDialogFrame (tasks s) t = Some (DialogShow r cd)"
    using t by (simp add: keep_apply)
  have v: "(if promises s (PDialog cd) = Pending then Fulfilled v else promises s (PDialog cd)) \<noteq> Pending"
    by simp
  let ?s' = "resumeDialogShow t r cd s"
  have tk: "tasks ?s' = (tasks s)(t := None)"
    and pr: "promises ?s' = (promises s)(PDialog cd :=
        if promises s (PDialog cd) = Pending then Fulfilled v else promises s (PDialog cd))"
    and cur: "currentDialog ?s' = (if currentDialog s = Some cd then None else currentDialog s)"
    and np: "nextPromise ?s' = nextPromise s"
    using Fulfilled by (simp_all add: resumeDialogShow_def Let_def)
  from chain_finish [OF dq [unfolded dialogQueue_def] k v]
  have "dialogQueue ?s' (tl ts)"
    by (simp only: dialogQueue_def tk pr cur np PD_upd keep_del)
  then show ?thesis ..
qed

lemma keep_fresh [simp]: "fresh s \<Longrightarrow> nextTask s \<le> t \<Longrightarrow> keep K (tasks s) t = None"
  by (simp add: keep_apply)

lemma upd_None_idem: "F t = None \<Longrightarrow> F(t := None) = F"
  by (rule fun_upd_idem)

lemma dq_doResolveAfterLookup:
  assumes fr: "fresh s" and dq: "dialogQueue s ts"
  shows "\<exists>ts'. dialogQueue (doResolveAfterLookup ai h su sp d s) ts'"
proof (cases "if attempt ai = 1 then storedStrings su sp else None")
  case (Some c)
  have "dialogQueue (doResolveAfterLookup ai h su sp d s) ts"
    by (rule dq_view [OF dq]) (simp_all add: doResolveAfterLookup_def Some)
  then show ?thesis ..
next
  case None
  have n: "keep isDialogFrame (tasks s) (nextTask s) = None"
    using fr by (simp add: keep_apply)
  have p: "promises s (PDialog (nextPromise s)) = Pending"
    using fr by (simp add: freshD(2))
  from chain_enqueue [OF dq [unfolded dialogQueue_def] n p, of ai h su sp]
  have "dialogQueue (doResolveAfterLookup ai h su sp d s) (ts @ [nextTask s])"
    using fr by (simp add: doResolveAfterLookup_def None dialogQueue_def Let_def upd_None_idem)
  then show ?thesis ..
qed


lemma dq_resumeDoResolveDecrypt:
  assumes fr: "fresh s" and dq: "dialogQueue s ts" and t: "tasks s t = Some (DoResolveDecrypt ai h d)"
  shows "\<exists>ts'. dialogQueue (resumeDoResolveDecrypt E t ai h d x s) ts'"
proof -
  have a: "\<And>e. dialogQueue (emit (LogError e) (finish t s)) ts"
    by (rule dq_view [OF dq]) (use t in simp_all)
  have b: "dialogQueue (finish t s) ts"
    by (rule dq_view [OF dq]) (use t in simp_all)
  have f: "\<And>e. fresh (emit (LogError e) (finish t s))" "fresh (finish t s)"
    using fr by (simp_all add: fresh_finish)
  show ?thesis
    using dq_doResolveAfterLookup [OF f(1) a] dq_doResolveAfterLookup [OF f(2) b]
    by (simp add: resumeDoResolveDecrypt_def split: sum.splits prod.splits)
qed

lemma dq_doResolve:
  assumes fr: "fresh s" and dq: "dialogQueue s ts"
  shows "\<exists>ts'. dialogQueue (snd (doResolveProxyCredentials E ai h s)) ts'"
proof -
  let ?s1 = "allocPromise s"
  have f1: "fresh ?s1" using fr by (rule fresh_allocPromise)
  have d1: "dialogQueue ?s1 ts" by (rule dq_view [OF dq]) simp_all
  have a: "\<And>e. dialogQueue (emit e ?s1) ts"
    by (rule dq_view [OF dq]) simp_all
  have b: "\<And>e v. dialogQueue (suspend (DoResolveDecrypt ai h (nextPromise s)) (emit (Decrypt v) (emit e ?s1))) ts"
    by (rule dq_view [OF dq]) (use fr in simp_all)
  have c: "\<And>v. dialogQueue (settle (PDoResolve (nextPromise s)) v ?s1) ts"
    by (rule dq_view [OF dq]) simp_all
  have f: "\<And>e. fresh (emit e ?s1)" using f1 by simp
  have a': "\<And>su sp d e. \<exists>ts'. dialogQueue (doResolveAfterLookup ai h su sp d (emit e ?s1)) ts'"
    by (rule dq_doResolveAfterLookup [OF f a])
  have b': "\<And>e v. \<exists>ts'. dialogQueue
      (suspend (DoResolveDecrypt ai h (nextPromise s)) (emit (Decrypt v) (emit e ?s1))) ts'"
    using b by blast
  have c': "\<And>v. \<exists>ts'. dialogQueue (settle (PDoResolve (nextPromise s)) v ?s1) ts'"
    using c by blast
  show ?thesis
    by (simp add: doResolveProxyCredentials_def Let_def a' b' c' split: option.splits)
qed

lemma dq_onLogin:
  assumes fr: "fresh s" and dq: "dialogQueue s ts"
  shows "\<exists>ts'. dialogQueue (onLogin E ai cb s) ts'"
proof (cases "isProxy ai")
  case False
  have "dialogQueue (onLogin E ai cb s) ts"
    by (rule dq_view [OF dq]) (use False in \<open>simp_all add: onLogin_def Let_def\<close>)
  then show ?thesis ..
next
  case True
  let ?h = "authInfoHash E ai"
  let ?s0 = "s\<lparr>nextCall := Suc (nextCall s)\<rparr>"
  show ?thesis
  proof (cases "pendingProxyResolves s ?h")
    case (Some p)
    have "dialogQueue (onLogin E ai cb s) ts"
      by (rule dq_view [OF dq]) (use True Some fr in \<open>simp_all add: onLogin_def Let_def\<close>)
    then show ?thesis ..
  next
    case None
    let ?s1 = "allocPromise ?s0"
    let ?s2 = "snd (doResolveProxyCredentials E ai ?h ?s1)"
    let ?s3 = "suspend (Resolve (Suc (nextPromise s)) (nextPromise s)) ?s2"
    let ?s4 = "?s3\<lparr>pendingProxyResolves := (pendingProxyResolves ?s3)(?h \<mapsto> nextPromise s)\<rparr>"
    have f1: "fresh ?s1" using fr by (intro fresh_allocPromise) simp
    have d1: "dialogQueue ?s1 ts" by (rule dq_view [OF dq]) simp_all
    from dq_doResolve [OF f1 d1] obtain ts' where d2: "dialogQueue ?s2 ts'" by blast
    have f2: "fresh ?s2" using f1 by (rule fresh_doResolve)
    have lt: "Suc (nextPromise s) < nextPromise ?s2"
      using doResolve_nextPromise [of ?s1 E ai ?h] by simp
    have f3: "fresh ?s3" using f2 lt by (intro fresh_suspend) simp_all
    have f4: "fresh ?s4" using f3 lt by (intro fresh_pending) (auto dest: freshD(6) [OF f2])
    have eq: "onLogin E ai cb s = suspend (OnLoginNew (nextCall s) ?h (nextPromise s) cb) ?s4"
      using True None
      by (simp add: onLogin_def resolveProxyCredentials_def Let_def split_beta)
    have d3: "dialogQueue ?s3 ts'"
      by (rule dq_view [OF d2]) (use f2 in simp_all)
    have d4: "dialogQueue ?s4 ts'"
      by (rule dq_view [OF d3]) simp_all
    have "dialogQueue (suspend (OnLoginNew (nextCall s) ?h (nextPromise s) cb) ?s4) ts'"
      by (rule dq_view [OF d4]) (use f2 in \<open>simp_all add: upd_None_idem\<close>)
    then show ?thesis unfolding eq ..
  qed
qed

lemma dq_resume:
  assumes fr: "fresh s" and nr: "noReject s" and dq: "dialogQueue s ts"
    and t: "tasks s t = Some f"
  shows "\<exists>ts'. dialogQueue (resume t f s) ts'"
proof (cases f)
  case (DialogWait pd ai h su sp cd)
  from dq_resumeDialogWait [OF fr nr dq t [unfolded DialogWait]] show ?thesis
    unfolding DialogWait by (simp only: resume.simps) blast
next
  case (DialogShow r cd)
  from dq_resumeDialogShow [OF nr dq t [unfolded DialogShow]] show ?thesis
    unfolding DialogShow by (simp only: resume.simps)
next
  case (OnLoginNew c h p cb)
  from dq_plain(1) [OF dq t [unfolded OnLoginNew]] show ?thesis
    unfolding OnLoginNew by (simp only: resume.simps) blast
next
  case (OnLoginJoin c p cb)
  from dq_plain(2) [OF dq t [unfolded OnLoginJoin]] show ?thesis
    unfolding OnLoginJoin by (simp only: resume.simps) blast
next
  case (Resolve d p)
  from dq_plain(3) [OF dq t [unfolded Resolve]] show ?thesis
    unfolding Resolve by (simp only: resume.simps) blast
next
  case (DoResolveReturn cd d)
  from dq_plain(4) [OF dq t [unfolded DoResolveReturn]] show ?thesis
    unfolding DoResolveReturn by (simp only: resume.simps) blast
next
  case (ShowReply q h r)
  from dq_plain(5) [OF dq t [unfolded ShowReply]] show ?thesis
    unfolding ShowReply by (simp only: resume.simps) blast
next
  case (DoResolveDecrypt ai h d)
  with dq show ?thesis by auto
next
  case (HandlerEncrypt h c q)
  with dq show ?thesis by auto
qed

lemma dq_step:
  assumes fr: "fresh s" and nr: "noReject s" and dq: "dialogQueue s ts"
  shows "\<exists>ts'. dialogQueue (step E s e) ts'"
proof (cases e)
  case (Login ai cb)
  with dq_onLogin [OF fr dq] show ?thesis by simp
next
  case (Run t)
  show ?thesis
  proof (cases "tasks s t")
    case None
    with Run dq show ?thesis by auto
  next
    case (Some f)
    with dq_resume [OF fr nr dq Some] Run show ?thesis by simp
  qed
next
  case (DecryptDone t x)
  show ?thesis
  proof (cases "\<exists>ai h d. tasks s t = Some (DoResolveDecrypt ai h d)")
    case True
    then obtain ai h d where t: "tasks s t = Some (DoResolveDecrypt ai h d)" by blast
    with dq_resumeDoResolveDecrypt [OF fr dq t] DecryptDone show ?thesis by simp
  next
    case False
    then have "step E s e = s"
      unfolding DecryptDone by (auto split: option.splits frame.splits)
    with dq show ?thesis by auto
  qed
next
  case (EncryptDone t x)
  show ?thesis
  proof (cases "\<exists>h c q. tasks s t = Some (HandlerEncrypt h c q)")
    case True
    then obtain h c q where t: "tasks s t = Some (HandlerEncrypt h c q)" by blast
    from dq_plain(6) [OF dq t] have "dialogQueue (step E s e) ts"
      unfolding EncryptDone using t by simp
    then show ?thesis ..
  next
    case False
    then have "step E s e = s"
      unfolding EncryptDone by (auto split: option.splits frame.splits)
    with dq show ?thesis by auto
  qed
next
  case (DialogReply ch reply)
  from dq_plain(7) [OF dq fr] have "dialogQueue (step E s e) ts"
    unfolding DialogReply by simp
  then show ?thesis ..
next
  case (SetWindow b)
  from dq_plain(8) [OF dq] have "dialogQueue (step E s e) ts"
    unfolding SetWindow by simp
  then show ?thesis ..
next
  case (SetStorageFails b)
  from dq_plain(9) [OF dq] have "dialogQueue (step E s e) ts"
    unfolding SetStorageFails by simp
  then show ?thesis ..
qed

lemma dq_initial: "dialogQueue (initial st w) []"
  by (simp add: dialogQueue_def chain_def initial_def)



lemma dq_run:
  "fresh s \<Longrightarrow> noReject s \<Longrightarrow> dialogQueue s ts \<Longrightarrow> \<exists>ts'. dialogQueue (run E s es) ts'"
  unfolding run_def
proof (induction es arbitrary: s ts)
  case Nil
  then show ?case by auto
next
  case (Cons e es)
  from dq_step [OF Cons.prems, of E e] obtain ts' where "dialogQueue (step E s e) ts'" ..
  from Cons.IH [OF fresh_step [OF Cons.prems(1)] noReject_step [OF Cons.prems(2)] this]
  show ?case by simp
qed

subsection \<open>One prompt at a time\<close>

lemma phase_cases:
  assumes "phase W PS PR H"
  obtains (Idle) "idle W H"
  | (Open) t q h r where "promptOpen W PS PR H t q h r"
  | (Replied) t q h r where "promptReplied W PS H t q h r"
  | (Encrypting) t q h r where "promptEncrypting W PS PR H t q h r"
  using assms unfolding phase_def by blast

lemma phaseI:
  "idle W H \<Longrightarrow> phase W PS PR H"
  "promptOpen W PS PR H t q h r \<Longrightarrow> phase W PS PR H"
  "promptReplied W PS H t q h r \<Longrightarrow> phase W PS PR H"
  "promptEncrypting W PS PR H t q h r \<Longrightarrow> phase W PS PR H"
  unfolding phase_def by blast+

lemma phase_no_show_idle:
  assumes "phase W PS PR H" "\<forall>t r cd. W t \<noteq> Some (DialogShow r cd)"
  shows "idle W H"
  using assms(1)
  by (cases rule: phase_cases)
    (use assms(2) in \<open>auto simp: promptOpen_def promptReplied_def promptEncrypting_def showing_def\<close>)

lemma idle_add_show: "idle W H \<Longrightarrow> idle (W(t \<mapsto> DialogShow r cd)) H"
  by (auto simp: idle_def noReplyFrames_def noEncryptFrames_def)

lemma idle_open:
  assumes "idle W H" "PS r = Pending" "PR q = Pending" "n \<noteq> t"
  shows "promptOpen (W(t \<mapsto> DialogShow r cd, n \<mapsto> ShowReply q h r)) PS PR (H(ch \<mapsto> (h, q))) n q h r"
  using assms
  by (auto simp: idle_def promptOpen_def showing_def noReplyFrames_def noEncryptFrames_def)

lemma phase_show_done:
  assumes p: "phase W PS PR H" and t: "W t = Some (DialogShow r cd)" and s: "PS r \<noteq> Pending"
    and u: "\<And>t1 t2 r1 cd1 r2 cd2. W t1 = Some (DialogShow r1 cd1) \<Longrightarrow>
              W t2 = Some (DialogShow r2 cd2) \<Longrightarrow> t1 = t2"
  shows "idle (W(t := None)) H"
proof -
  have "idle W H"
    using p
  proof (cases rule: phase_cases)
    case Idle
    then show ?thesis .
  next
    case (Open t' q h r')
    then obtain u' cd' where "W u' = Some (DialogShow r' cd')" "PS r' = Pending"
      by (auto simp: promptOpen_def showing_def)
    with u [OF t this(1)] t s show ?thesis by auto
  next
    case (Replied t' q h r')
    then obtain u' cd' where "W u' = Some (DialogShow r' cd')" "PS r' = Pending"
      by (auto simp: promptReplied_def showing_def)
    with u [OF t this(1)] t s show ?thesis by auto
  next
    case (Encrypting t' q h r')
    then obtain u' cd' where "W u' = Some (DialogShow r' cd')" "PS r' = Pending"
      by (auto simp: promptEncrypting_def showing_def)
    with u [OF t this(1)] t s show ?thesis by auto
  qed
  then show ?thesis
    by (auto simp: idle_def noReplyFrames_def noEncryptFrames_def)
qed

lemma showing_same:
  assumes "showing W PS t' q' h' r'" "W t = Some (ShowReply q h r)"
  shows "t' = t \<and> q' = q \<and> h' = h \<and> r' = r"
proof -
  from assms have "t = t'" unfolding showing_def by blast
  with assms show ?thesis by (simp add: showing_def)
qed

lemma phase_reply_done:
  assumes p: "phase W PS PR H" and t: "W t = Some (ShowReply q h r)" and s: "PR q \<noteq> Pending"
  shows "idle (W(t := None)) H"
  using p
proof (cases rule: phase_cases)
  case Idle
  with t show ?thesis by (auto simp: idle_def noReplyFrames_def)
next
  case (Open t' q' h' r')
  then have "showing W PS t' q' h' r'" "PR q' = Pending" by (simp_all add: promptOpen_def)
  with showing_same [OF this(1) t] s show ?thesis by simp
next
  case (Replied t' q' h' r')
  then have sh: "showing W PS t' q' h' r'" and H: "H = Map.empty" and ne: "noEncryptFrames W"
    by (simp_all add: promptReplied_def)
  from sh have "\<forall>u q' h' r'. W u = Some (ShowReply q' h' r') \<longrightarrow> u = t'"
    by (simp add: showing_def)
  moreover from showing_same [OF sh t] have "t' = t" by simp
  ultimately have "noReplyFrames (W(t := None))"
    unfolding noReplyFrames_def by (auto split: if_splits)
  moreover from ne have "noEncryptFrames (W(t := None))"
    unfolding noEncryptFrames_def by auto
  ultimately show ?thesis using H by (simp add: idle_def)
next
  case (Encrypting t' q' h' r')
  then have "showing W PS t' q' h' r'" "PR q' = Pending" by (simp_all add: promptEncrypting_def)
  with showing_same [OF this(1) t] s show ?thesis by simp
qed

lemma phase_handler:
  assumes p: "phase W PS PR H" and hd: "H ch = Some (h, q)"
  shows "\<exists>t r. promptOpen W PS PR H t q h r \<and> H(ch := None) = Map.empty"
  using p
proof (cases rule: phase_cases)
  case Idle
  with hd show ?thesis by (simp add: idle_def)
next
  case (Open t' q' h' r')
  then obtain ch' where H: "H = [ch' \<mapsto> (h', q')]" by (auto simp: promptOpen_def)
  with hd have "ch' = ch" "h' = h" "q' = q" by (auto split: if_splits)
  with Open H show ?thesis by auto
next
  case (Replied t' q' h' r')
  with hd show ?thesis by (simp add: promptReplied_def)
next
  case (Encrypting t' q' h' r')
  with hd show ?thesis by (simp add: promptEncrypting_def)
qed

lemma open_replied:
  "promptOpen W PS PR H t q h r \<Longrightarrow> promptReplied W PS Map.empty t q h r"
  by (simp add: promptOpen_def promptReplied_def)

lemma showing_add:
  assumes sh: "showing W PS t q h r" and n: "W n = None"
    and f: "\<forall>q' h' r'. f \<noteq> ShowReply q' h' r'"
  shows "showing (W(n \<mapsto> f)) PS t q h r"
proof -
  from sh obtain t' cd where a: "W t = Some (ShowReply q h r)"
    and b: "\<forall>u q' h' r'. W u = Some (ShowReply q' h' r') \<longrightarrow> u = t"
    and c: "W t' = Some (DialogShow r cd)" and d: "PS r = Pending"
    unfolding showing_def by blast
  from a n have nt: "n \<noteq> t" by auto
  from c n have nt': "n \<noteq> t'" by auto
  have a': "(W(n \<mapsto> f)) t = Some (ShowReply q h r)" using a nt by simp
  have b': "\<forall>u q' h' r'. (W(n \<mapsto> f)) u = Some (ShowReply q' h' r') \<longrightarrow> u = t"
    using b f by (auto split: if_splits)
  have c': "(W(n \<mapsto> f)) t' = Some (DialogShow r cd)" using c nt' by simp
  from a' b' c' d show ?thesis unfolding showing_def by blast
qed

lemma open_encrypting:
  assumes o: "promptOpen W PS PR H t q h r" and n: "W n = None"
  shows "promptEncrypting (W(n \<mapsto> HandlerEncrypt h c q)) PS PR Map.empty t q h r"
proof -
  from o have sh: "showing W PS t q h r" and pr: "PR q = Pending" and ne: "noEncryptFrames W"
    by (simp_all add: promptOpen_def)
  have sh': "showing (W(n \<mapsto> HandlerEncrypt h c q)) PS t q h r"
    by (rule showing_add [OF sh n]) simp
  have e: "(W(n \<mapsto> HandlerEncrypt h c q)) n = Some (HandlerEncrypt h c q)" by simp
  have u: "\<forall>u h' c' q'. (W(n \<mapsto> HandlerEncrypt h c q)) u = Some (HandlerEncrypt h' c' q') \<longrightarrow> u = n"
    using ne unfolding noEncryptFrames_def by (auto split: if_splits)
  from sh' pr e u show ?thesis unfolding promptEncrypting_def by blast
qed

lemma showing_del:
  assumes sh: "showing W PS t q h r" and u: "W u = Some (HandlerEncrypt h' c' q')"
  shows "showing (W(u := None)) PS t q h r"
proof -
  from sh obtain t' cd where a: "W t = Some (ShowReply q h r)"
    and b: "\<forall>u q' h' r'. W u = Some (ShowReply q' h' r') \<longrightarrow> u = t"
    and c: "W t' = Some (DialogShow r cd)" and d: "PS r = Pending"
    unfolding showing_def by blast
  from a u have nt: "u \<noteq> t" by auto
  from c u have nt': "u \<noteq> t'" by auto
  have a': "(W(u := None)) t = Some (ShowReply q h r)" using a nt by simp
  have b': "\<forall>v q' h' r'. (W(u := None)) v = Some (ShowReply q' h' r') \<longrightarrow> v = t"
    using b by (auto split: if_splits)
  have c': "(W(u := None)) t' = Some (DialogShow r cd)" using c nt' by simp
  from a' b' c' d show ?thesis unfolding showing_def by blast
qed

lemma phase_encrypt_done:
  assumes p: "phase W PS PR H" and t2: "W t2 = Some (HandlerEncrypt h c q)"
  shows "\<exists>t r. promptReplied (W(t2 := None)) PS H t q h r"
  using p
proof (cases rule: phase_cases)
  case Idle
  with t2 show ?thesis by (auto simp: idle_def noEncryptFrames_def)
next
  case (Open t' q' h' r')
  with t2 show ?thesis by (auto simp: promptOpen_def noEncryptFrames_def)
next
  case (Replied t' q' h' r')
  with t2 show ?thesis by (auto simp: promptReplied_def noEncryptFrames_def)
next
  case (Encrypting t' q' h' r')
  then obtain u c' where e: "W u = Some (HandlerEncrypt h' c' q')"
    and uq: "\<forall>u' h'' c'' q''. W u' = Some (HandlerEncrypt h'' c'' q'') \<longrightarrow> u' = u"
    and sh: "showing W PS t' q' h' r'" and H: "H = Map.empty"
    by (auto simp: promptEncrypting_def)
  from uq t2 have "t2 = u" by blast
  with e t2 have eq: "h' = h" "q' = q" by auto
  have "showing (W(t2 := None)) PS t' q' h' r'"
    by (rule showing_del [OF sh t2])
  moreover have "noEncryptFrames (W(t2 := None))"
    using uq \<open>t2 = u\<close> by (auto simp: noEncryptFrames_def)
  ultimately show ?thesis using H eq by (auto simp: promptReplied_def)
qed

subsection \<open>What a waiting call returns\<close>


subsection \<open>A second attempt: the prompt, and the calls that join\<close>










subsection \<open>Resolutions in flight\<close>






lemma PR_upd:
  "(\<lambda>n. ((promises s)(PResolve p := x)) (PResolve n)) = (\<lambda>n. promises s (PResolve n))(p := x)"
  by (rule ext) simp
























end
